theory Spec2Isabelle
  imports Complex_Main "HOL-Library.AList"
begin

section \<open>Product viewer: interaction manager, placement, registry and UI controls\<close>

text \<open>
  A shallow embedding of the viewer's JavaScript: \<^verbatim>\<open>InteractionManager\<close> (the
  pointer, touch and XR controller handlers), \<^verbatim>\<open>App\<close> (model registry, AR
  tap-to-place, the render loop) and \<^verbatim>\<open>uiControls.js\<close> (recent colours, the
  Reset button).

  Conventions of the model.
  \<^item> A JavaScript number is an IEEE 754 double. A finite double is taken as the
    \<^typ>\<open>real\<close> it denotes, and \<^verbatim>\<open>+\<close>, \<^verbatim>\<open>-\<close> and \<^verbatim>\<open>*\<close> round the exact result to
    the nearest double (see the numbers below).
  \<^item> Objects are referenced by identity. A scene-graph node is an \<open>obj\<close> (an
    address) and its fields live in a store \<open>obj \<Rightarrow> Object3D\<close>; a JavaScript array
    that is shared by reference is an \<open>addr\<close> into a heap of arrays.
  \<^item> What three.js and the browser compute (ray casting, hit-test results, the
    bounding box of meshes) enters the handlers as an argument of the event.
\<close>

subsection \<open>Recent colours (uiControls.js)\<close>

text \<open>
  The value under the key \<^verbatim>\<open>recentColors\<close> of \<^verbatim>\<open>localStorage\<close>: absent, a
  string that \<^verbatim>\<open>JSON.parse\<close> rejects, or the JSON array of colour strings
  that \<^verbatim>\<open>addRecentColor\<close> writes.
\<close>

datatype stored_colors = Absent | Corrupt | Colors "string list"

text \<open>
  \<^verbatim>\<open>getRecentColors\<close>: a missing item gives the empty list, and so does a parse
  error, which the function catches.
\<close>

fun getRecentColors :: "stored_colors \<Rightarrow> string list" where
  "getRecentColors Absent = []"
| "getRecentColors Corrupt = []"
| "getRecentColors (Colors cs) = cs"

text \<open>
  \<^verbatim>\<open>addRecentColor\<close>: filter the colour out, \<^verbatim>\<open>unshift\<close> it, \<^verbatim>\<open>slice(0, 6)\<close>,
  \<^verbatim>\<open>setItem\<close>. The first argument tells whether \<^verbatim>\<open>setItem\<close> succeeds; when it
  throws (quota), the surrounding \<^verbatim>\<open>catch\<close> logs and the stored value stays.
\<close>

definition addRecentColor :: "bool \<Rightarrow> string \<Rightarrow> stored_colors \<Rightarrow> stored_colors" where
  "addRecentColor setItemOk color st =
     (let recentColors = getRecentColors st;
          recentColors = filter (\<lambda>c. c \<noteq> color) recentColors;
          recentColors = color # recentColors;
          recentColors = take 6 recentColors
      in if setItemOk then Colors recentColors else st)"

lemma addRecentColor_stored:
  "addRecentColor True color st =
     Colors (color # take 5 (filter (\<lambda>c. c \<noteq> color) (getRecentColors st)))"
  by (simp add: addRecentColor_def Let_def numeral_eq_Suc)



text \<open>
  Seven colours are stored and \<open>d\<close> is the fourth: adding \<open>d\<close> moves it to the
  front and keeps the first five of the others; the seventh colour is dropped.
\<close>

lemma addRecentColor_example:
  "addRecentColor True ''d'' (Colors [''a'', ''b'', ''c'', ''d'', ''e'', ''f'', ''g''])
     = Colors [''d'', ''a'', ''b'', ''c'', ''e'', ''f'']"
  by (simp add: addRecentColor_stored)

subsection \<open>JavaScript numbers\<close>

text \<open>
  The arithmetic of the JavaScript engine, IEEE 754 binary64 with the default
  rounding: the exact result is rounded to the nearest double, a tie to the one
  with even significand. Around \<open>x\<close> the doubles are the multiples of \<open>ulp x\<close>:
  \<open>2\<^sup>e\<^sup>-\<^sup>5\<^sup>2\<close> for \<open>2\<^sup>e \<le> |x| < 2\<^sup>e\<^sup>+\<^sup>1\<close>, and \<open>2\<^sup>-\<^sup>1\<^sup>0\<^sup>7\<^sup>4\<close> throughout the subnormal range.
  Outside the model: \<^verbatim>\<open>NaN\<close>, the infinities and the sign of zero, and with
  them an operation whose result reaches \<open>2\<^sup>1\<^sup>0\<^sup>2\<^sup>4\<close> in magnitude.
\<close>

definition roundTiesToEven :: "real \<Rightarrow> int" where
  "roundTiesToEven r =
     (if r - of_int \<lfloor>r\<rfloor> < 1 / 2 then \<lfloor>r\<rfloor>
      else if 1 / 2 < r - of_int \<lfloor>r\<rfloor> then \<lfloor>r\<rfloor> + 1
      else if even \<lfloor>r\<rfloor> then \<lfloor>r\<rfloor> else \<lfloor>r\<rfloor> + 1)"

definition ulp :: "real \<Rightarrow> real" where
  "ulp x = 2 powi (max \<lfloor>log 2 \<bar>x\<bar>\<rfloor> (- 1022) - 52)"

definition fl :: "real \<Rightarrow> real" where
  "fl x = (if x = 0 then 0 else ulp x * of_int (roundTiesToEven (x / ulp x)))"

definition jsAdd :: "real \<Rightarrow> real \<Rightarrow> real" where
  "jsAdd a b = fl (a + b)"

definition jsSub :: "real \<Rightarrow> real \<Rightarrow> real" where
  "jsSub a b = fl (a - b)"

definition jsMul :: "real \<Rightarrow> real \<Rightarrow> real" where
  "jsMul a b = fl (a * b)"

text \<open>A real is a double when rounding leaves it as it is.\<close>

definition isDouble :: "real \<Rightarrow> bool" where
  "isDouble x = (fl x = x)"

lemma ulp_eval:
  assumes "2 powi e \<le> \<bar>x\<bar>" and "\<bar>x\<bar> < 2 powi (e + 1)" and "- 1022 \<le> e"
  shows "ulp x = 2 powi (e - 52)"
proof -
  have pos: "0 < \<bar>x\<bar>"
    using assms(1) by (smt (verit) zero_less_power_int)
  have lo: "(2::real) powr real_of_int e = 2 powi e"
    using powr_real_of_int' [of "2::real" e] by simp
  have hi: "(2::real) powr (real_of_int e + 1) = 2 powi (e + 1)"
    using powr_real_of_int' [of "2::real" "e + 1"] by simp
  have "\<lfloor>log 2 \<bar>x\<bar>\<rfloor> = e"
    using assms pos by (simp add: floor_log_eq_powr_iff lo hi)
  then show ?thesis
    using assms(3) by (simp add: ulp_def)
qed

text \<open>Rounding a number of a known binade.\<close>

lemma fl_eval:
  assumes "2 powi e \<le> \<bar>x\<bar>" and "\<bar>x\<bar> < 2 powi (e + 1)" and "- 1022 \<le> e"
  shows "fl x = 2 powi (e - 52) * of_int (roundTiesToEven (x / 2 powi (e - 52)))"
proof -
  have "x \<noteq> 0"
    using assms(1) by (smt (verit) zero_less_power_int)
  then show ?thesis
    by (simp add: fl_def ulp_eval [OF assms])
qed

lemma fl_0: "fl 0 = 0"
  by (simp add: fl_def)

text \<open>
  A real that is a whole multiple of its \<open>ulp\<close> is a double; so is every integer
  up to \<open>2\<^sup>5\<^sup>3\<close> in magnitude.
\<close>

lemma roundTiesToEven_of_int: "roundTiesToEven (of_int m) = m"
  by (simp add: roundTiesToEven_def)

lemma ulp_pos: "0 < ulp x"
  by (simp add: ulp_def)

lemma fl_exact:
  assumes "x / ulp x = of_int m"
  shows "fl x = x"
proof -
  have "ulp x * of_int m = x"
    using assms ulp_pos [of x] by (simp add: field_simps)
  then show ?thesis
    using assms by (simp add: fl_def roundTiesToEven_of_int)
qed

lemma fl_of_int:
  assumes "\<bar>n\<bar> \<le> 2 ^ 53"
  shows "fl (of_int n) = of_int n"
proof (cases "n = 0")
  case True
  then show ?thesis by (simp add: fl_0)
next
  case False
  define x :: real where "x = of_int n"
  define e where "e = \<lfloor>log 2 \<bar>x\<bar>\<rfloor>"
  have one: "1 \<le> \<bar>x\<bar>"
    using False by (simp add: x_def flip: of_int_abs)
  have top: "\<bar>x\<bar> \<le> 2 ^ 53"
  proof -
    have "real_of_int \<bar>n\<bar> \<le> real_of_int (2 ^ 53)"
      using assms by (rule of_int_le_iff [THEN iffD2])
    then show ?thesis by (simp add: x_def)
  qed
  have e0: "0 \<le> e"
    using one by (simp add: e_def)
  have lo: "(2::real) powr real_of_int e = 2 powi e"
    using powr_real_of_int' [of "2::real" e] by simp
  have hi: "(2::real) powr (real_of_int e + 1) = 2 powi (e + 1)"
    using powr_real_of_int' [of "2::real" "e + 1"] by simp
  have "\<lfloor>log 2 \<bar>x\<bar>\<rfloor> = e"
    by (simp add: e_def)
  then have bounds: "2 powi e \<le> \<bar>x\<bar>" "\<bar>x\<bar> < 2 powi (e + 1)"
    using one by (simp_all add: floor_log_eq_powr_iff lo hi)
  have e53: "e \<le> 53"
  proof (rule ccontr)
    assume "\<not> e \<le> 53"
    then have "(2::real) powi 54 \<le> 2 powi e"
      by (intro power_int_increasing) simp_all
    with bounds(1) top show False
      by simp
  qed
  have u: "ulp x = 2 powi (e - 52)"
    using bounds e0 by (intro ulp_eval) simp_all
  have "\<exists>m. x / ulp x = of_int m"
  proof (cases "e \<le> 52")
    case True
    have "x / 2 powi (e - 52) = x * 2 powi (52 - e)"
      by (simp add: power_int_diff field_simps)
    also have "\<dots> = x * 2 ^ nat (52 - e)"
      using True by (simp add: power_int_def)
    also have "\<dots> = of_int (n * 2 ^ nat (52 - e))"
      by (simp add: x_def)
    finally show ?thesis
      unfolding u by blast
  next
    case False
    with e53 have e: "e = 53" by simp
    from bounds(1) top have "\<bar>x\<bar> = 2 ^ 53"
      unfolding e by simp
    then have "\<bar>n\<bar> = 2 ^ 53"
      unfolding x_def by (metis of_int_abs of_int_eq_numeral_power_cancel_iff)
    then have "n = 2 ^ 53 \<or> n = - (2 ^ 53)"
      by auto
    then have "x / 2 = of_int (n div 2)"
      unfolding x_def by auto
    then show ?thesis
      unfolding u e by auto
  qed
  then obtain m where "x / ulp x = of_int m" by blast
  then have "fl x = x" by (rule fl_exact)
  then show ?thesis by (simp add: x_def)
qed

lemma fl_numeral: "numeral k \<le> (2::int) ^ 53 \<Longrightarrow> fl (numeral k) = numeral k"
  using fl_of_int [of "numeral k"] by simp

lemma fl_neg_numeral: "numeral k \<le> (2::int) ^ 53 \<Longrightarrow> fl (- numeral k) = - numeral k"
  using fl_of_int [of "- numeral k"] by simp

lemma fl_1: "fl 1 = 1"
  using fl_of_int [of 1] by simp

lemma fl_neg_1: "fl (- 1) = - 1"
  using fl_of_int [of "- 1"] by simp

lemmas fl_ints = fl_0 fl_1 fl_neg_1 fl_numeral fl_neg_numeral

lemma jsMul_zero: "jsMul 0 x = 0" "jsMul x 0 = 0"
  by (simp_all add: jsMul_def fl_0)

lemma js_zero: "jsAdd 0 0 = 0" "jsSub 0 0 = 0"
  by (simp_all add: jsAdd_def jsSub_def fl_0)

subsection \<open>three.js values\<close>

text \<open>
  \<^verbatim>\<open>THREE.Vector2\<close>, \<^verbatim>\<open>THREE.Vector3\<close> and \<^verbatim>\<open>THREE.Quaternion\<close> with the
  methods the viewer calls. The methods are three.js library code; they are
  written here as the library defines them, each \<^verbatim>\<open>+\<close>, \<^verbatim>\<open>-\<close> and \<^verbatim>\<open>*\<close> of the
  library a rounded operation, in the order in which JavaScript evaluates it.
\<close>

record Vector2 =
  px :: real
  py :: real

record Vector3 =
  vx :: real
  vy :: real
  vz :: real

record Quaternion =
  qx :: real
  qy :: real
  qz :: real
  qw :: real

definition Vector3_set :: "real \<Rightarrow> real \<Rightarrow> real \<Rightarrow> Vector3" where
  "Vector3_set a b c = \<lparr>vx = a, vy = b, vz = c\<rparr>"

definition Vector3_add :: "Vector3 \<Rightarrow> Vector3 \<Rightarrow> Vector3" where
  "Vector3_add a b =
     \<lparr>vx = jsAdd (vx a) (vx b), vy = jsAdd (vy a) (vy b), vz = jsAdd (vz a) (vz b)\<rparr>"

definition subVectors :: "Vector3 \<Rightarrow> Vector3 \<Rightarrow> Vector3" where
  "subVectors a b =
     \<lparr>vx = jsSub (vx a) (vx b), vy = jsSub (vy a) (vy b), vz = jsSub (vz a) (vz b)\<rparr>"

definition multiplyScalar :: "Vector3 \<Rightarrow> real \<Rightarrow> Vector3" where
  "multiplyScalar a k = \<lparr>vx = jsMul (vx a) k, vy = jsMul (vy a) k, vz = jsMul (vz a) k\<rparr>"

text \<open>
  \<^verbatim>\<open>Quaternion.multiply\<close> (\<^verbatim>\<open>multiplyQuaternions(this, q)\<close>), whose first line is
  \<^verbatim>\<open>this._x = qax * qbw + qaw * qbx + qay * qbz - qaz * qby\<close>: four products, then
  the sums and the difference from left to right.
\<close>

definition multiply :: "Quaternion \<Rightarrow> Quaternion \<Rightarrow> Quaternion" where
  "multiply a b =
     \<lparr>qx = jsSub (jsAdd (jsAdd (jsMul (qx a) (qw b)) (jsMul (qw a) (qx b)))
                       (jsMul (qy a) (qz b)))
                (jsMul (qz a) (qy b)),
      qy = jsSub (jsAdd (jsAdd (jsMul (qy a) (qw b)) (jsMul (qw a) (qy b)))
                       (jsMul (qz a) (qx b)))
                (jsMul (qx a) (qz b)),
      qz = jsSub (jsAdd (jsAdd (jsMul (qz a) (qw b)) (jsMul (qw a) (qz b)))
                       (jsMul (qx a) (qy b)))
                (jsMul (qy a) (qx b)),
      qw = jsSub (jsSub (jsSub (jsMul (qw a) (qw b)) (jsMul (qx a) (qx b)))
                       (jsMul (qy a) (qy b)))
                (jsMul (qz a) (qz b))\<rparr>"

text \<open>
  \<^verbatim>\<open>Quaternion.invert\<close> is \<^verbatim>\<open>conjugate\<close>: three.js takes the quaternion to have
  unit length and does not divide by the squared length. Negation is exact.
\<close>

definition conjugate :: "Quaternion \<Rightarrow> Quaternion" where
  "conjugate q = \<lparr>qx = - qx q, qy = - qy q, qz = - qz q, qw = qw q\<rparr>"

definition invert :: "Quaternion \<Rightarrow> Quaternion" where
  "invert q = conjugate q"

definition identityQuaternion :: Quaternion where
  "identityQuaternion = \<lparr>qx = 0, qy = 0, qz = 0, qw = 1\<rparr>"

subsection \<open>The scene graph and the heap\<close>

type_synonym obj = nat
type_synonym addr = nat
type_synonym orbit = nat

text \<open>
  \<^verbatim>\<open>THREE.Object3D\<close>, with the fields the viewer reads or writes.
  \<open>originalScale\<close> is \<^verbatim>\<open>userData.originalScale\<close>; \<open>worldPosition\<close> is the
  translation of \<^verbatim>\<open>matrixWorld\<close>, which \<^verbatim>\<open>setFromMatrixPosition\<close> reads.
  three.js mirrors \<open>rotation\<close> (Euler angles) and \<open>quaternion\<close> into each other
  when one is written; the model records each as the viewer's code writes it.
\<close>

record Object3D =
  parent :: "obj option"
  children :: "obj list"
  position :: Vector3
  rotation :: Vector3
  quaternion :: Quaternion
  scale :: Vector3
  visible :: bool
  originalScale :: "Vector3 option"
  worldPosition :: Vector3

text \<open>\<^verbatim>\<open>OrbitControls\<close>: the four flags the interaction manager switches.\<close>

record OrbitControls =
  enabled :: bool
  enableRotate :: bool
  enablePan :: bool
  enableZoom :: bool

text \<open>
  The heap: scene-graph nodes, JavaScript arrays of nodes, orbit controls.
  \<open>nextObject\<close> and \<open>nextArray\<close> are the addresses that the next \<^verbatim>\<open>new\<close>
  object and the next new array get.
\<close>

record Heap =
  objects :: "obj \<Rightarrow> Object3D"
  nextObject :: obj
  arrays :: "addr \<Rightarrow> obj list"
  nextArray :: addr
  orbits :: "orbit \<Rightarrow> OrbitControls"

text \<open>\<^verbatim>\<open>new THREE.Group()\<close>: no parent, no children, identity transform, visible.\<close>

definition newGroup :: Object3D where
  "newGroup =
     \<lparr>parent = None, children = [], position = Vector3_set 0 0 0,
      rotation = Vector3_set 0 0 0, quaternion = identityQuaternion,
      scale = Vector3_set 1 1 1, visible = True, originalScale = None,
      worldPosition = Vector3_set 0 0 0\<rparr>"

text \<open>
  \<^verbatim>\<open>Object3D.remove(child)\<close>: when the child is in the children array, its parent
  becomes null and it is spliced out; otherwise nothing.
\<close>

definition Object3D_remove :: "obj \<Rightarrow> obj \<Rightarrow> (obj \<Rightarrow> Object3D) \<Rightarrow> (obj \<Rightarrow> Object3D)" where
  "Object3D_remove p c objs =
     (if c \<in> set (children (objs p))
      then (let objs1 = objs(c := (objs c)\<lparr>parent := None\<rparr>)
            in objs1(p := (objs1 p)\<lparr>children := remove1 c (children (objs1 p))\<rparr>))
      else objs)"

text \<open>
  \<^verbatim>\<open>Object3D.add(child)\<close>: adding an object to itself is refused; otherwise the
  child leaves its former parent, gets the new one and is pushed to the end of
  the children array.
\<close>

definition Object3D_add :: "obj \<Rightarrow> obj \<Rightarrow> (obj \<Rightarrow> Object3D) \<Rightarrow> (obj \<Rightarrow> Object3D)" where
  "Object3D_add p c objs =
     (if c = p then objs
      else (let objs1 = (case parent (objs c) of
                           None \<Rightarrow> objs
                         | Some q \<Rightarrow> Object3D_remove q c objs);
                objs2 = objs1(c := (objs1 c)\<lparr>parent := Some p\<rparr>)
            in objs2(p := (objs2 p)\<lparr>children := children (objs2 p) @ [c]\<rparr>)))"

subsection \<open>The Reset button (uiControls.js)\<close>

text \<open>
  The body of the \<^verbatim>\<open>forEach\<close> in \<^verbatim>\<open>resetButton.onclick\<close>, for one child of the
  product group: position and rotation are set to zero, then the scale is copied
  from \<^verbatim>\<open>child.children[0].userData.originalScale\<close> when the child has a first
  child that carries one, and set to \<open>(1, 1, 1)\<close> otherwise.
\<close>

definition resetChild :: "obj \<Rightarrow> (obj \<Rightarrow> Object3D) \<Rightarrow> (obj \<Rightarrow> Object3D)" where
  "resetChild child objs =
     (let objs1 = objs(child := (objs child)\<lparr>position := Vector3_set 0 0 0\<rparr>);
          objs2 = objs1(child := (objs1 child)\<lparr>rotation := Vector3_set 0 0 0\<rparr>)
      in (case children (objs2 child) of
            [] \<Rightarrow> objs2(child := (objs2 child)\<lparr>scale := Vector3_set 1 1 1\<rparr>)
          | first # _ \<Rightarrow>
              (case originalScale (objs2 first) of
                 None \<Rightarrow> objs2(child := (objs2 child)\<lparr>scale := Vector3_set 1 1 1\<rparr>)
               | Some s \<Rightarrow> objs2(child := (objs2 child)\<lparr>scale := s\<rparr>))))"

text \<open>
  \<^verbatim>\<open>resetButton.onclick\<close>, as far as the parts go. The call of
  \<^verbatim>\<open>fitCameraToScene\<close> that follows writes the camera and the orbit target only.
\<close>

definition resetButton_onclick :: "obj option \<Rightarrow> Heap \<Rightarrow> Heap" where
  "resetButton_onclick productGroup h =
     (case productGroup of
        None \<Rightarrow> h
      | Some g \<Rightarrow> h\<lparr>objects := fold resetChild (children (objects h g)) (objects h)\<rparr>)"

text \<open>The scale that Reset gives a part: the snapshot of its first child, or one.\<close>

definition resetScale :: "(obj \<Rightarrow> Object3D) \<Rightarrow> obj \<Rightarrow> Vector3" where
  "resetScale objs child =
     (case children (objs child) of
        [] \<Rightarrow> Vector3_set 1 1 1
      | first # _ \<Rightarrow>
          (case originalScale (objs first) of
             None \<Rightarrow> Vector3_set 1 1 1
           | Some s \<Rightarrow> s))"

lemma resetChild_frame:
  "children (resetChild x objs c) = children (objs c)"
  "parent (resetChild x objs c) = parent (objs c)"
  "originalScale (resetChild x objs c) = originalScale (objs c)"
  by (simp_all add: resetChild_def Let_def split: list.split option.split)

lemma resetChild_other:
  "c \<noteq> x \<Longrightarrow> resetChild x objs c = objs c"
  by (simp add: resetChild_def Let_def split: list.split option.split)

lemma resetScale_resetChild:
  "resetScale (resetChild x objs) c = resetScale objs c"
  by (simp add: resetScale_def resetChild_frame split: list.split)

lemma resetChild_self:
  "position (resetChild x objs x) = Vector3_set 0 0 0"
  "rotation (resetChild x objs x) = Vector3_set 0 0 0"
  "scale (resetChild x objs x) = resetScale objs x"
  by (simp_all add: resetChild_def resetScale_def Let_def split: list.split option.split)

lemma fold_resetChild_frame:
  "children (fold resetChild xs objs c) = children (objs c)"
  "parent (fold resetChild xs objs c) = parent (objs c)"
  "originalScale (fold resetChild xs objs c) = originalScale (objs c)"
  by (induction xs arbitrary: objs) (simp_all add: resetChild_frame)

lemma fold_resetChild_notin:
  "c \<notin> set xs \<Longrightarrow> fold resetChild xs objs c = objs c"
  by (induction xs arbitrary: objs) (simp_all add: resetChild_other)

lemma fold_resetChild_done:
  assumes "position (objs c) = Vector3_set 0 0 0"
    and "rotation (objs c) = Vector3_set 0 0 0"
    and "scale (objs c) = resetScale objs c"
  shows "position (fold resetChild xs objs c) = Vector3_set 0 0 0
       \<and> rotation (fold resetChild xs objs c) = Vector3_set 0 0 0
       \<and> scale (fold resetChild xs objs c) = resetScale objs c"
  using assms
proof (induction xs arbitrary: objs)
  case Nil
  then show ?case by simp
next
  case (Cons x xs)
  have step: "position (resetChild x objs c) = Vector3_set 0 0 0
       \<and> rotation (resetChild x objs c) = Vector3_set 0 0 0
       \<and> scale (resetChild x objs c) = resetScale (resetChild x objs) c"
  proof (cases "c = x")
    case True
    then show ?thesis
      by (simp add: resetChild_self resetScale_resetChild)
  next
    case False
    then show ?thesis
      using Cons.prems by (simp add: resetChild_other resetScale_resetChild)
  qed
  from step have "position (fold resetChild xs (resetChild x objs) c) = Vector3_set 0 0 0
       \<and> rotation (fold resetChild xs (resetChild x objs) c) = Vector3_set 0 0 0
       \<and> scale (fold resetChild xs (resetChild x objs) c) = resetScale (resetChild x objs) c"
    by (intro Cons.IH) simp_all
  then show ?case
    by (simp add: resetScale_resetChild)
qed

lemma fold_resetChild_in:
  "c \<in> set xs \<Longrightarrow>
     position (fold resetChild xs objs c) = Vector3_set 0 0 0
   \<and> rotation (fold resetChild xs objs c) = Vector3_set 0 0 0
   \<and> scale (fold resetChild xs objs c) = resetScale objs c"
proof (induction xs arbitrary: objs)
  case Nil
  then show ?case by simp
next
  case (Cons x xs)
  show ?case
  proof (cases "c = x")
    case True
    have "position (fold resetChild xs (resetChild x objs) c) = Vector3_set 0 0 0
       \<and> rotation (fold resetChild xs (resetChild x objs) c) = Vector3_set 0 0 0
       \<and> scale (fold resetChild xs (resetChild x objs) c) = resetScale (resetChild x objs) c"
      using True
      by (intro fold_resetChild_done) (simp_all add: resetChild_self resetScale_resetChild)
    then show ?thesis
      by (simp add: resetScale_resetChild)
  next
    case False
    with Cons.prems have "c \<in> set xs" by simp
    from Cons.IH [OF this, of "resetChild x objs"] show ?thesis
      by (simp add: resetScale_resetChild)
  qed
qed

text \<open>
  C10. Reset gives every child of the product group position \<open>(0, 0, 0)\<close> and
  rotation \<open>(0, 0, 0)\<close>; its scale becomes the original-scale snapshot stored
  with its first child when there is one, and \<open>(1, 1, 1)\<close> otherwise. The
  children array of the group, and every parent link, are as before: no part
  is added or removed.
\<close>

theorem reset_restores_parts:
  assumes "c \<in> set (children (objects h g))"
  shows "position (objects (resetButton_onclick (Some g) h) c) = Vector3_set 0 0 0
       \<and> rotation (objects (resetButton_onclick (Some g) h) c) = Vector3_set 0 0 0
       \<and> scale (objects (resetButton_onclick (Some g) h) c) =
           (case children (objects h c) of
              [] \<Rightarrow> Vector3_set 1 1 1
            | first # _ \<Rightarrow>
                (case originalScale (objects h first) of
                   None \<Rightarrow> Vector3_set 1 1 1
                 | Some s \<Rightarrow> s))
       \<and> children (objects (resetButton_onclick (Some g) h) g) = children (objects h g)
       \<and> (\<forall>x. children (objects (resetButton_onclick (Some g) h) x) = children (objects h x)
              \<and> parent (objects (resetButton_onclick (Some g) h) x) = parent (objects h x))"
proof -
  have objs: "objects (resetButton_onclick (Some g) h)
                = fold resetChild (children (objects h g)) (objects h)"
    by (simp add: resetButton_onclick_def)
  have "position (fold resetChild (children (objects h g)) (objects h) c) = Vector3_set 0 0 0
      \<and> rotation (fold resetChild (children (objects h g)) (objects h) c) = Vector3_set 0 0 0
      \<and> scale (fold resetChild (children (objects h g)) (objects h) c) = resetScale (objects h) c"
    using assms by (rule fold_resetChild_in)
  then show ?thesis
    unfolding objs by (simp add: fold_resetChild_frame resetScale_def)
qed

subsection \<open>InteractionManager: state\<close>

text \<open>
  The fields of \<^verbatim>\<open>InteractionManager\<close>. \<open>draggableObjects\<close> is a reference to
  an array on the heap, since \<^verbatim>\<open>setDraggableObjects\<close> stores the caller's array.
  The \<^verbatim>\<open>mouse\<close> vector and the \<^verbatim>\<open>raycaster\<close> only feed three.js ray casting,
  whose results the events below carry, and are left out.
\<close>

record InteractionManager =
  scene :: obj
  isXRSessionActive :: bool
  rotationMode :: bool
  startControllerQuaternion :: Quaternion
  startObjectQuaternion :: Quaternion
  selectedObject :: "obj option"
  activeController :: "obj option"
  lastControllerPosition :: Vector3
  draggableObjects :: addr
  isDragging :: bool
  lastMousePosition :: Vector2
  lastDragPoint :: "Vector3 option"
  orbitControls :: "orbit option"

type_synonym im_state = "Heap \<times> InteractionManager"

subsection \<open>InteractionManager: orbit controls\<close>

definition setOrbitFlags :: "bool \<Rightarrow> OrbitControls \<Rightarrow> OrbitControls" where
  "setOrbitFlags b c = c\<lparr>enabled := b, enableRotate := b, enablePan := b, enableZoom := b\<rparr>"

text \<open>
  \<^verbatim>\<open>disableOrbitControls\<close> and \<^verbatim>\<open>enableOrbitControls\<close>: the manager's own
  controls when it has some, then those of \<^verbatim>\<open>window.app\<close>. The first argument
  is \<^verbatim>\<open>window.app.orbitControls\<close>, \<open>None\<close> when \<^verbatim>\<open>window.app\<close> or the field is
  missing.
\<close>

definition switchOrbitControls :: "bool \<Rightarrow> orbit option \<Rightarrow> InteractionManager \<Rightarrow> Heap \<Rightarrow> Heap" where
  "switchOrbitControls b appOrbit im h =
     (let h1 = (case orbitControls im of
                  None \<Rightarrow> h
                | Some c \<Rightarrow> h\<lparr>orbits := (orbits h)(c := setOrbitFlags b (orbits h c))\<rparr>)
      in (case appOrbit of
            None \<Rightarrow> h1
          | Some c \<Rightarrow> h1\<lparr>orbits := (orbits h1)(c := setOrbitFlags b (orbits h1 c))\<rparr>))"

definition disableOrbitControls :: "orbit option \<Rightarrow> InteractionManager \<Rightarrow> Heap \<Rightarrow> Heap" where
  "disableOrbitControls = switchOrbitControls False"

definition enableOrbitControls :: "orbit option \<Rightarrow> InteractionManager \<Rightarrow> Heap \<Rightarrow> Heap" where
  "enableOrbitControls = switchOrbitControls True"

subsection \<open>InteractionManager: pointer and touch handlers\<close>

text \<open>
  The loop that walks from the hit object up the parent links:
  \<^verbatim>\<open>while (object) { if (draggableObjects.includes(object)) topLevelDraggable = object;
  if (object === this.scene) break; object = object.parent; }\<close>.
  The loop has no bound of its own; it ends when the chain of parents reaches
  the scene or a node without parent. \<open>None\<close> is the loop that never ends.
\<close>

partial_function (option) findTopLevelDraggable ::
  "(obj \<Rightarrow> Object3D) \<Rightarrow> obj list \<Rightarrow> obj \<Rightarrow> obj option \<Rightarrow> obj option \<Rightarrow> obj option option"
where
  "findTopLevelDraggable objs draggable sc object topLevelDraggable =
     (case object of
        None \<Rightarrow> Some topLevelDraggable
      | Some ob \<Rightarrow>
          (if ob = sc
           then Some (if ob \<in> set draggable then Some ob else topLevelDraggable)
           else findTopLevelDraggable objs draggable sc (parent (objs ob))
                  (if ob \<in> set draggable then Some ob else topLevelDraggable)))"

text \<open>
  What \<^verbatim>\<open>onMouseDown\<close> and \<^verbatim>\<open>onTouchStart\<close> both do with the result of
  \<^verbatim>\<open>raycaster.intersectObjects(this.draggableObjects, true)\<close>, given as the list
  of the objects hit, nearest first: on a hit that resolves to a draggable
  object the orbit controls are disabled and the drag session is set up.
  Neither handler reads \<open>isDragging\<close> or \<open>selectedObject\<close> before this.
\<close>

definition selectForDrag ::
  "orbit option \<Rightarrow> real \<Rightarrow> real \<Rightarrow> obj list \<Rightarrow> im_state \<Rightarrow> im_state option" where
  "selectForDrag appOrbit clientX clientY intersects s =
     (case s of (h, im) \<Rightarrow>
        (case intersects of
           [] \<Rightarrow> Some (h, im)
         | hit # _ \<Rightarrow>
             (case findTopLevelDraggable (objects h) (arrays h (draggableObjects im))
                     (scene im) (Some hit) None of
                None \<Rightarrow> None
              | Some None \<Rightarrow> Some (h, im)
              | Some (Some tld) \<Rightarrow>
                  Some (disableOrbitControls appOrbit im h,
                        im\<lparr>isDragging := True,
                           selectedObject := Some tld,
                           lastMousePosition := \<lparr>px = clientX, py = clientY\<rparr>,
                           lastDragPoint := None\<rparr>))))"

definition onMouseDown ::
  "orbit option \<Rightarrow> real \<Rightarrow> real \<Rightarrow> obj list \<Rightarrow> im_state \<Rightarrow> im_state option" where
  "onMouseDown appOrbit clientX clientY intersects s =
     (if isXRSessionActive (snd s) then Some s
      else selectForDrag appOrbit clientX clientY intersects s)"

text \<open>A touch is its \<^verbatim>\<open>(clientX, clientY)\<close>; the event carries \<^verbatim>\<open>event.touches\<close>.\<close>

definition onTouchStart ::
  "orbit option \<Rightarrow> (real \<times> real) list \<Rightarrow> obj list \<Rightarrow> im_state \<Rightarrow> im_state option" where
  "onTouchStart appOrbit touches intersects s =
     (if isXRSessionActive (snd s) then Some s
      else (case touches of
              [touch] \<Rightarrow> selectForDrag appOrbit (fst touch) (snd touch) intersects s
            | _ \<Rightarrow> Some s))"

text \<open>
  \<^verbatim>\<open>handleDrag\<close>. The third argument is the result of
  \<^verbatim>\<open>raycaster.ray.intersectPlane(plane, intersectionPoint)\<close>: the point, or
  \<open>None\<close> when the ray misses the plane. The \<^verbatim>\<open>model-transform\<close> message is
  sent only when \<^verbatim>\<open>window.app.isHost\<close> and \<^verbatim>\<open>window.app.socket\<close> are set, which
  \<^verbatim>\<open>App\<close> never does; it changes no state and is left out.
\<close>

definition handleDrag :: "real \<Rightarrow> real \<Rightarrow> Vector3 option \<Rightarrow> im_state \<Rightarrow> im_state" where
  "handleDrag clientX clientY rayIntersectsPlane s =
     (case s of (h, im) \<Rightarrow>
        (case selectedObject im of
           None \<Rightarrow> (h, im)
         | Some sel \<Rightarrow>
             (let im1 = im\<lparr>lastMousePosition := \<lparr>px = clientX, py = clientY\<rparr>\<rparr>
              in (case rayIntersectsPlane of
                    None \<Rightarrow> (h, im1)
                  | Some intersectionPoint \<Rightarrow>
                      (case lastDragPoint im1 of
                         None \<Rightarrow> (h, im1\<lparr>lastDragPoint := Some intersectionPoint\<rparr>)
                       | Some lastPoint \<Rightarrow>
                           (let dragDelta = subVectors intersectionPoint lastPoint;
                                o1 = (objects h sel)
                                       \<lparr>position := Vector3_add (position (objects h sel)) dragDelta\<rparr>;
                                o2 = (case originalScale o1 of
                                        None \<Rightarrow> o1
                                      | Some sc \<Rightarrow> o1\<lparr>scale := sc\<rparr>)
                            in (h\<lparr>objects := (objects h)(sel := o2)\<rparr>,
                                im1\<lparr>lastDragPoint := Some intersectionPoint\<rparr>)))))))"

definition onMouseMove :: "real \<Rightarrow> real \<Rightarrow> Vector3 option \<Rightarrow> im_state \<Rightarrow> im_state" where
  "onMouseMove clientX clientY rayIntersectsPlane s =
     (if isDragging (snd s) \<and> selectedObject (snd s) \<noteq> None
      then handleDrag clientX clientY rayIntersectsPlane s
      else s)"

definition onTouchMove :: "(real \<times> real) list \<Rightarrow> Vector3 option \<Rightarrow> im_state \<Rightarrow> im_state" where
  "onTouchMove touches rayIntersectsPlane s =
     (if \<not> isDragging (snd s) \<or> selectedObject (snd s) = None then s
      else (case touches of
              [touch] \<Rightarrow> handleDrag (fst touch) (snd touch) rayIntersectsPlane s
            | _ \<Rightarrow> s))"

text \<open>\<^verbatim>\<open>onMouseUp\<close> and \<^verbatim>\<open>onTouchEnd\<close> (also bound to \<^verbatim>\<open>touchcancel\<close>).\<close>

definition onMouseUp :: "orbit option \<Rightarrow> im_state \<Rightarrow> im_state" where
  "onMouseUp appOrbit s =
     (case s of (h, im) \<Rightarrow>
        (if isDragging im
         then (enableOrbitControls appOrbit im h,
               im\<lparr>isDragging := False, selectedObject := None, lastDragPoint := None\<rparr>)
         else (h, im)))"

definition onTouchEnd :: "orbit option \<Rightarrow> im_state \<Rightarrow> im_state" where
  "onTouchEnd appOrbit s =
     (case s of (h, im) \<Rightarrow>
        (if isDragging im
         then (enableOrbitControls appOrbit im h,
               im\<lparr>isDragging := False, selectedObject := None, lastDragPoint := None\<rparr>)
         else (h, im)))"

text \<open>
  The mouse and touch events that reach the manager, each with what three.js
  computes for it, and their dispatch to the handlers in arrival order.
\<close>

datatype PointerEvent =
    MouseDown real real "obj list"
  | MouseMove real real "Vector3 option"
  | MouseUp
  | TouchStart "(real \<times> real) list" "obj list"
  | TouchMove "(real \<times> real) list" "Vector3 option"
  | TouchEnd

fun dispatch :: "orbit option \<Rightarrow> PointerEvent \<Rightarrow> im_state \<Rightarrow> im_state option" where
  "dispatch appOrbit (MouseDown x y intersects) s = onMouseDown appOrbit x y intersects s"
| "dispatch appOrbit (MouseMove x y hit) s = Some (onMouseMove x y hit s)"
| "dispatch appOrbit MouseUp s = Some (onMouseUp appOrbit s)"
| "dispatch appOrbit (TouchStart touches intersects) s = onTouchStart appOrbit touches intersects s"
| "dispatch appOrbit (TouchMove touches hit) s = Some (onTouchMove touches hit s)"
| "dispatch appOrbit TouchEnd s = Some (onTouchEnd appOrbit s)"

fun dispatchAll :: "orbit option \<Rightarrow> PointerEvent list \<Rightarrow> im_state \<Rightarrow> im_state option" where
  "dispatchAll appOrbit [] s = Some s"
| "dispatchAll appOrbit (e # es) s =
     (case dispatch appOrbit e s of
        None \<Rightarrow> None
      | Some s' \<Rightarrow> dispatchAll appOrbit es s')"

subsection \<open>InteractionManager: XR controller handlers and the frame update\<close>

text \<open>
  \<^verbatim>\<open>onControllerSelectStart\<close>; \<open>allIntersects\<close> is the result of intersecting
  the controller's ray with \<^verbatim>\<open>scene.children\<close>. A controller is a scene-graph
  node.
\<close>

definition onControllerSelectStart :: "obj \<Rightarrow> obj list \<Rightarrow> im_state \<Rightarrow> im_state option" where
  "onControllerSelectStart controller allIntersects s =
     (case s of (h, im) \<Rightarrow>
        (case allIntersects of
           [] \<Rightarrow> Some (h, im)
         | hit # _ \<Rightarrow>
             (case findTopLevelDraggable (objects h) (arrays h (draggableObjects im))
                     (scene im) (Some hit) None of
                None \<Rightarrow> None
              | Some None \<Rightarrow> Some (h, im)
              | Some (Some tld) \<Rightarrow>
                  Some (h, im\<lparr>selectedObject := Some tld,
                              activeController := Some controller,
                              lastControllerPosition := worldPosition (objects h controller)\<rparr>))))"

definition onControllerSelectEnd :: "im_state \<Rightarrow> im_state" where
  "onControllerSelectEnd s =
     (case s of (h, im) \<Rightarrow>
        (h, im\<lparr>selectedObject := None, activeController := None, rotationMode := False\<rparr>))"

definition onControllerSqueezeStart :: "obj \<Rightarrow> im_state \<Rightarrow> im_state" where
  "onControllerSqueezeStart controller s =
     (case s of (h, im) \<Rightarrow>
        (case selectedObject im of
           None \<Rightarrow> (h, im)
         | Some sel \<Rightarrow>
             (h, im\<lparr>rotationMode := True,
                    startControllerQuaternion := quaternion (objects h controller),
                    startObjectQuaternion := quaternion (objects h sel)\<rparr>)))"

definition onControllerSqueezeEnd :: "im_state \<Rightarrow> im_state" where
  "onControllerSqueezeEnd s = (case s of (h, im) \<Rightarrow> (h, im\<lparr>rotationMode := False\<rparr>))"

text \<open>The listeners of the renderer's \<^verbatim>\<open>sessionstart\<close> and \<^verbatim>\<open>sessionend\<close>.\<close>

definition onSessionStart :: "InteractionManager \<Rightarrow> InteractionManager" where
  "onSessionStart im = im\<lparr>isXRSessionActive := True\<rparr>"

definition onSessionEnd :: "InteractionManager \<Rightarrow> InteractionManager" where
  "onSessionEnd im = im\<lparr>isXRSessionActive := False, rotationMode := False\<rparr>"

text \<open>
  \<^verbatim>\<open>getDraggableObjects\<close> returns \<^verbatim>\<open>[...this.draggableObjects]\<close>, a new array
  with the same elements; \<^verbatim>\<open>setDraggableObjects\<close> stores the reference it is
  given.
\<close>

definition getDraggableObjects :: "InteractionManager \<Rightarrow> Heap \<Rightarrow> Heap \<times> addr" where
  "getDraggableObjects im h =
     (h\<lparr>arrays := (arrays h)(nextArray h := arrays h (draggableObjects im)),
        nextArray := Suc (nextArray h)\<rparr>,
      nextArray h)"

definition setDraggableObjects :: "addr \<Rightarrow> InteractionManager \<Rightarrow> InteractionManager" where
  "setDraggableObjects objs im = im\<lparr>draggableObjects := objs\<rparr>"

text \<open>
  \<^verbatim>\<open>update\<close>, called once per frame. \<open>isMobile\<close> is the test of
  \<^verbatim>\<open>navigator.userAgent\<close> against \<^verbatim>\<open>/Mobi/\<close>. The second component of the result
  lists the orbit controls whose \<^verbatim>\<open>update()\<close> the call invoked.
\<close>

definition update :: "bool \<Rightarrow> im_state \<Rightarrow> im_state \<times> orbit list" where
  "update isMobile s =
     (case s of (h, im) \<Rightarrow>
        (let s1 =
           (case selectedObject im of
              None \<Rightarrow> (h, im)
            | Some sel \<Rightarrow>
                (case activeController im of
                   None \<Rightarrow> (h, im)
                 | Some controller \<Rightarrow>
                     (if \<not> isXRSessionActive im then (h, im)
                      else if rotationMode im
                      then (let currentControllerQuaternion = quaternion (objects h controller);
                                deltaQuaternion =
                                  multiply currentControllerQuaternion
                                    (invert (startControllerQuaternion im));
                                newObjectQuaternion =
                                  multiply deltaQuaternion (startObjectQuaternion im)
                            in (h\<lparr>objects := (objects h)
                                     (sel := (objects h sel)\<lparr>quaternion := newObjectQuaternion\<rparr>)\<rparr>,
                                im))
                      else (let currentPosition = worldPosition (objects h controller);
                                delta0 = subVectors currentPosition (lastControllerPosition im);
                                delta = (if isMobile then multiplyScalar delta0 2 else delta0)
                            in (h\<lparr>objects := (objects h)
                                     (sel := (objects h sel)
                                        \<lparr>position := Vector3_add (position (objects h sel)) delta\<rparr>)\<rparr>,
                                im\<lparr>lastControllerPosition := currentPosition\<rparr>)))))
         in (case orbitControls im of
               None \<Rightarrow> (s1, [])
             | Some c \<Rightarrow> if \<not> isXRSessionActive im then (s1, [c]) else (s1, []))))"

subsection \<open>An example scene\<close>

text \<open>
  The scene \<open>0\<close> holds the product group \<open>1\<close> and a controller \<open>6\<close>; the group
  holds two parts \<open>2\<close> and \<open>3\<close>, each the container of one loaded model (\<open>4\<close>
  and \<open>5\<close>). The array at address \<open>0\<close> lists the two parts. Orbit controls
  \<open>0\<close> are the app's and \<open>1\<close> the manager's.
\<close>

definition exampleOrbit :: OrbitControls where
  "exampleOrbit = \<lparr>enabled = True, enableRotate = True, enablePan = True, enableZoom = True\<rparr>"

definition exampleHeap :: Heap where
  "exampleHeap =
     \<lparr>objects = (\<lambda>_. newGroup)
        (0 := newGroup\<lparr>children := [1, 6]\<rparr>,
         1 := newGroup\<lparr>parent := Some 0, children := [2, 3]\<rparr>,
         2 := newGroup\<lparr>parent := Some 1, children := [4]\<rparr>,
         3 := newGroup\<lparr>parent := Some 1, children := [5]\<rparr>,
         4 := newGroup\<lparr>parent := Some 2\<rparr>,
         5 := newGroup\<lparr>parent := Some 3\<rparr>,
         6 := newGroup\<lparr>parent := Some 0\<rparr>),
      nextObject = 7,
      arrays = (\<lambda>_. [])(0 := [2, 3]),
      nextArray = 1,
      orbits = (\<lambda>_. exampleOrbit)\<rparr>"

definition exampleManager :: InteractionManager where
  "exampleManager =
     \<lparr>scene = 0, isXRSessionActive = False, rotationMode = False,
      startControllerQuaternion = identityQuaternion,
      startObjectQuaternion = identityQuaternion,
      selectedObject = None, activeController = None,
      lastControllerPosition = Vector3_set 0 0 0,
      draggableObjects = 0, isDragging = False,
      lastMousePosition = \<lparr>px = 0, py = 0\<rparr>,
      lastDragPoint = None, orbitControls = Some 1\<rparr>"

lemma exampleHeap_arrays: "arrays exampleHeap 0 = [2, 3]"
  by (simp add: exampleHeap_def)

lemma example_walk_4:
  "findTopLevelDraggable (objects exampleHeap) [2, 3] 0 (Some 4) None = Some (Some 2)"
  by (simp add: findTopLevelDraggable.simps exampleHeap_def newGroup_def)

lemma example_walk_5:
  "findTopLevelDraggable (objects exampleHeap) [2, 3] 0 (Some 5) None = Some (Some 3)"
  by (simp add: findTopLevelDraggable.simps exampleHeap_def newGroup_def)

subsection \<open>Reset: an instance\<close>

text \<open>
  Part \<open>2\<close> has been dragged and scaled and its model \<open>4\<close> carries a snapshot
  \<open>(2, 2, 2)\<close>; Reset on the group \<open>1\<close> brings the part back to the origin with
  that scale.
\<close>

definition movedHeap :: Heap where
  "movedHeap =
     exampleHeap\<lparr>objects := (objects exampleHeap)
        (2 := (objects exampleHeap 2)\<lparr>position := Vector3_set 5 6 7, scale := Vector3_set 3 3 3\<rparr>,
         4 := (objects exampleHeap 4)\<lparr>originalScale := Some (Vector3_set 2 2 2)\<rparr>)\<rparr>"

theorem reset_restores_parts_witness:
  "2 \<in> set (children (objects movedHeap 1))
   \<and> position (objects movedHeap 2) = Vector3_set 5 6 7
   \<and> position (objects (resetButton_onclick (Some 1) movedHeap) 2) = Vector3_set 0 0 0
   \<and> rotation (objects (resetButton_onclick (Some 1) movedHeap) 2) = Vector3_set 0 0 0
   \<and> scale (objects (resetButton_onclick (Some 1) movedHeap) 2) = Vector3_set 2 2 2
   \<and> children (objects (resetButton_onclick (Some 1) movedHeap) 1) = [2, 3]"
proof -
  have part: "2 \<in> set (children (objects movedHeap 1))"
    by (simp add: movedHeap_def exampleHeap_def)
  have kids: "children (objects movedHeap 1) = [2, 3]"
    by (simp add: movedHeap_def exampleHeap_def)
  have model: "children (objects movedHeap 2) = [4]"
    by (simp add: movedHeap_def exampleHeap_def newGroup_def)
  have snapshot: "originalScale (objects movedHeap 4) = Some (Vector3_set 2 2 2)"
    by (simp add: movedHeap_def exampleHeap_def)
  have before: "position (objects movedHeap 2) = Vector3_set 5 6 7"
    by (simp add: movedHeap_def exampleHeap_def)
  from reset_restores_parts [OF part] show ?thesis
    using part before kids model snapshot by simp
qed

subsection \<open>The draggable list of the manager\<close>

text \<open>
  C9. After \<^verbatim>\<open>setDraggableObjects(l)\<close>, for an array \<open>l\<close> of the heap,
  \<^verbatim>\<open>getDraggableObjects()\<close> returns an array other than \<open>l\<close> with the elements
  of \<open>l\<close>, and whatever is written into the returned array, the manager's own
  list still has the elements of \<open>l\<close>.
\<close>

theorem draggable_round_trip:
  assumes "l < nextArray h"
  shows "draggableObjects (setDraggableObjects l im) = l
       \<and> snd (getDraggableObjects (setDraggableObjects l im) h) \<noteq> l
       \<and> arrays (fst (getDraggableObjects (setDraggableObjects l im) h))
            (snd (getDraggableObjects (setDraggableObjects l im) h)) = arrays h l
       \<and> (\<forall>xs. arrays
                 ((fst (getDraggableObjects (setDraggableObjects l im) h))
                    \<lparr>arrays := (arrays (fst (getDraggableObjects (setDraggableObjects l im) h)))
                       (snd (getDraggableObjects (setDraggableObjects l im) h) := xs)\<rparr>)
                 (draggableObjects (setDraggableObjects l im)) = arrays h l)"
  using assms by (simp add: getDraggableObjects_def setDraggableObjects_def)

theorem draggable_round_trip_witness:
  "(0::nat) < nextArray exampleHeap
   \<and> snd (getDraggableObjects (setDraggableObjects 0 exampleManager) exampleHeap) = 1
   \<and> arrays (fst (getDraggableObjects (setDraggableObjects 0 exampleManager) exampleHeap)) 1
        = [2, 3]
   \<and> arrays
        ((fst (getDraggableObjects (setDraggableObjects 0 exampleManager) exampleHeap))
           \<lparr>arrays := (arrays (fst (getDraggableObjects (setDraggableObjects 0 exampleManager)
                                     exampleHeap)))(1 := [])\<rparr>)
        (draggableObjects (setDraggableObjects 0 exampleManager)) = [2, 3]"
proof -
  have allocated: "(0::nat) < nextArray exampleHeap"
    by (simp add: exampleHeap_def)
  have fresh: "snd (getDraggableObjects (setDraggableObjects 0 exampleManager) exampleHeap) = 1"
    by (simp add: getDraggableObjects_def exampleHeap_def)
  from draggable_round_trip [OF allocated, of exampleManager] show ?thesis
    using allocated fresh exampleHeap_arrays by (simp add: setDraggableObjects_def)
qed

subsection \<open>Drag: delta accumulation\<close>

text \<open>
  The move events, and the plane intersection that a move event hands to
  \<^verbatim>\<open>handleDrag\<close> during a session: that of a mouse move or of a move with
  exactly one touch; a touch move with another number of touches returns
  before \<^verbatim>\<open>handleDrag\<close>.
\<close>

fun isMove :: "PointerEvent \<Rightarrow> bool" where
  "isMove (MouseMove x y hit) = True"
| "isMove (TouchMove touches hit) = True"
| "isMove e = False"

fun intersection :: "PointerEvent \<Rightarrow> Vector3 option" where
  "intersection (MouseMove x y hit) = hit"
| "intersection (TouchMove [touch] hit) = hit"
| "intersection e = None"

fun intersections :: "PointerEvent list \<Rightarrow> Vector3 list" where
  "intersections [] = []"
| "intersections (e # es) =
     (case intersection e of
        None \<Rightarrow> intersections es
      | Some p \<Rightarrow> p # intersections es)"

text \<open>
  What a session does to the position \<open>p\<close> of the selected object, given the
  intersections in order: the first is the reference and moves nothing; each
  later one, \<open>q\<close>, adds \<^verbatim>\<open>subVectors(q, l)\<close> for the stored \<open>l\<close>, as
  \<^verbatim>\<open>THREE.Vector3\<close> computes the difference and the sum.
\<close>

fun accumulate :: "Vector3 \<Rightarrow> Vector3 list \<Rightarrow> Vector3" where
  "accumulate p (l # q # ps) = accumulate (Vector3_add p (subVectors q l)) (q # ps)"
| "accumulate p ps = p"

text \<open>
  The exact sum and difference of vectors, to state results with, and the
  sessions in which no subtraction and no addition of \<^verbatim>\<open>handleDrag\<close> rounds.
\<close>

definition exactAdd :: "Vector3 \<Rightarrow> Vector3 \<Rightarrow> Vector3" where
  "exactAdd a b = \<lparr>vx = vx a + vx b, vy = vy a + vy b, vz = vz a + vz b\<rparr>"

definition exactSub :: "Vector3 \<Rightarrow> Vector3 \<Rightarrow> Vector3" where
  "exactSub a b = \<lparr>vx = vx a - vx b, vy = vy a - vy b, vz = vz a - vz b\<rparr>"

fun roundingFree :: "Vector3 \<Rightarrow> Vector3 list \<Rightarrow> bool" where
  "roundingFree p (l # q # ps) =
     (subVectors q l = exactSub q l
      \<and> Vector3_add p (exactSub q l) = exactAdd p (exactSub q l)
      \<and> roundingFree (exactAdd p (exactSub q l)) (q # ps))"
| "roundingFree p ps = True"

lemma exactAdd_sub_same: "exactAdd p (exactSub a a) = p"
  by (simp add: exactAdd_def exactSub_def)

lemma exactAdd_sub_chain:
  "exactAdd (exactAdd p (exactSub b a)) (exactSub c b) = exactAdd p (exactSub c a)"
  by (simp add: exactAdd_def exactSub_def)

lemma accumulate_roundingFree:
  "roundingFree p (l # ps) \<Longrightarrow>
     accumulate p (l # ps) = exactAdd p (exactSub (last (l # ps)) l)"
proof (induction ps arbitrary: p l)
  case Nil
  then show ?case by (simp add: exactAdd_sub_same)
next
  case (Cons q ps)
  from Cons.prems have sub: "subVectors q l = exactSub q l"
    and add: "Vector3_add p (exactSub q l) = exactAdd p (exactSub q l)"
    and rest: "roundingFree (exactAdd p (exactSub q l)) (q # ps)"
    by simp_all
  have "accumulate p (l # q # ps) = accumulate (exactAdd p (exactSub q l)) (q # ps)"
    by (simp add: sub add)
  also have "\<dots> = exactAdd (exactAdd p (exactSub q l)) (exactSub (last (q # ps)) q)"
    using rest by (rule Cons.IH)
  also have "\<dots> = exactAdd p (exactSub (last (q # ps)) l)"
    by (rule exactAdd_sub_chain)
  finally show ?case by simp
qed

lemma handleDrag_miss:
  "selectedObject im = Some ob \<Longrightarrow>
     handleDrag x y None (h, im) = (h, im\<lparr>lastMousePosition := \<lparr>px = x, py = y\<rparr>\<rparr>)"
  by (simp add: handleDrag_def)

lemma handleDrag_first:
  "selectedObject im = Some ob \<Longrightarrow> lastDragPoint im = None \<Longrightarrow>
     handleDrag x y (Some p) (h, im)
       = (h, im\<lparr>lastMousePosition := \<lparr>px = x, py = y\<rparr>, lastDragPoint := Some p\<rparr>)"
  by (simp add: handleDrag_def)

lemma handleDrag_next:
  assumes "selectedObject im = Some ob" and "lastDragPoint im = Some l"
  shows "\<exists>h'. handleDrag x y (Some p) (h, im)
            = (h', im\<lparr>lastMousePosition := \<lparr>px = x, py = y\<rparr>, lastDragPoint := Some p\<rparr>)
          \<and> position (objects h' ob) = Vector3_add (position (objects h ob)) (subVectors p l)"
  using assms by (simp add: handleDrag_def Let_def split: option.split)

lemma move_step:
  assumes "isMove e" and "isDragging im" and "selectedObject im = Some ob"
  shows "\<exists>h' im'. dispatch appOrbit e (h, im) = Some (h', im')
          \<and> isDragging im' \<and> selectedObject im' = Some ob
          \<and> (case intersection e of
                None \<Rightarrow> lastDragPoint im' = lastDragPoint im
                        \<and> position (objects h' ob) = position (objects h ob)
              | Some p \<Rightarrow> lastDragPoint im' = Some p
                        \<and> position (objects h' ob) =
                            (case lastDragPoint im of
                               None \<Rightarrow> position (objects h ob)
                             | Some l \<Rightarrow> Vector3_add (position (objects h ob)) (subVectors p l)))"
proof -
  have drag: "\<exists>h' im'. handleDrag x y hit (h, im) = (h', im')
          \<and> isDragging im' \<and> selectedObject im' = Some ob
          \<and> (case hit of
                None \<Rightarrow> lastDragPoint im' = lastDragPoint im
                        \<and> position (objects h' ob) = position (objects h ob)
              | Some p \<Rightarrow> lastDragPoint im' = Some p
                        \<and> position (objects h' ob) =
                            (case lastDragPoint im of
                               None \<Rightarrow> position (objects h ob)
                             | Some l \<Rightarrow> Vector3_add (position (objects h ob)) (subVectors p l)))"
    for x y hit
  proof (cases hit)
    case None
    then show ?thesis using assms by (simp add: handleDrag_miss)
  next
    case (Some p)
    show ?thesis
    proof (cases "lastDragPoint im")
      case None
      then show ?thesis using assms Some by (simp add: handleDrag_first)
    next
      case (Some l)
      from handleDrag_next [OF assms(3) Some, of x y p h]
      obtain h' where "handleDrag x y (Some p) (h, im)
            = (h', im\<lparr>lastMousePosition := \<lparr>px = x, py = y\<rparr>, lastDragPoint := Some p\<rparr>)"
        and "position (objects h' ob) = Vector3_add (position (objects h ob)) (subVectors p l)"
        by blast
      then show ?thesis using assms Some \<open>hit = Some p\<close> by simp
    qed
  qed
  show ?thesis
  proof (cases e)
    case (MouseMove x y hit)
    then show ?thesis using assms drag [of x y hit] by (simp add: onMouseMove_def)
  next
    case (TouchMove touches hit)
    show ?thesis
    proof (cases "\<exists>t. touches = [t]")
      case True
      then obtain t where "touches = [t]" by blast
      then show ?thesis
        using assms TouchMove drag [of "fst t" "snd t" hit] by (simp add: onTouchMove_def)
    next
      case False
      then have "intersection e = None"
        using TouchMove by (cases "TouchMove touches hit" rule: intersection.cases) auto
      moreover have "onTouchMove touches hit (h, im) = (h, im)"
        using False assms by (cases touches) (auto simp add: onTouchMove_def split: list.split)
      ultimately show ?thesis using assms TouchMove by simp
    qed
  qed (use assms in simp_all)
qed

lemma drag_after_reference:
  assumes "\<forall>e \<in> set evs. isMove e"
    and "isDragging im" and "selectedObject im = Some ob" and "lastDragPoint im = Some l"
  shows "\<exists>h' im'. dispatchAll appOrbit evs (h, im) = Some (h', im')
          \<and> position (objects h' ob)
              = accumulate (position (objects h ob)) (l # intersections evs)"
  using assms
proof (induction evs arbitrary: h im l)
  case Nil
  then show ?case by simp
next
  case (Cons e es)
  from Cons.prems have mv: "isMove e" and rest: "\<forall>e \<in> set es. isMove e"
    by simp_all
  from move_step [OF mv Cons.prems(2) Cons.prems(3), of appOrbit h]
  obtain h1 im1 where step: "dispatch appOrbit e (h, im) = Some (h1, im1)"
    and dragging: "isDragging im1" and sel: "selectedObject im1 = Some ob"
    and eff: "(case intersection e of
                None \<Rightarrow> lastDragPoint im1 = lastDragPoint im
                        \<and> position (objects h1 ob) = position (objects h ob)
              | Some p \<Rightarrow> lastDragPoint im1 = Some p
                        \<and> position (objects h1 ob) =
                            (case lastDragPoint im of
                               None \<Rightarrow> position (objects h ob)
                             | Some l \<Rightarrow> Vector3_add (position (objects h ob)) (subVectors p l)))"
    by blast
  show ?case
  proof (cases "intersection e")
    case None
    with eff Cons.prems(4) have last1: "lastDragPoint im1 = Some l"
      and pos1: "position (objects h1 ob) = position (objects h ob)"
      by simp_all
    from Cons.IH [OF rest dragging sel last1, of h1] show ?thesis
      using step None pos1 by simp
  next
    case (Some p)
    with eff Cons.prems(4) have last1: "lastDragPoint im1 = Some p"
      and pos1: "position (objects h1 ob) =
                   Vector3_add (position (objects h ob)) (subVectors p l)"
      by simp_all
    from Cons.IH [OF rest dragging sel last1, of h1] show ?thesis
      using step Some pos1 by simp
  qed
qed

lemma drag_accumulates:
  assumes "\<forall>e \<in> set evs. isMove e"
    and "isDragging im" and "selectedObject im = Some ob" and "lastDragPoint im = None"
  shows "\<exists>h' im'. dispatchAll appOrbit evs (h, im) = Some (h', im')
          \<and> position (objects h' ob)
              = accumulate (position (objects h ob)) (intersections evs)"
  using assms
proof (induction evs arbitrary: h im)
  case Nil
  then show ?case by simp
next
  case (Cons e es)
  from Cons.prems have mv: "isMove e" and rest: "\<forall>e \<in> set es. isMove e"
    by simp_all
  from move_step [OF mv Cons.prems(2) Cons.prems(3), of appOrbit h]
  obtain h1 im1 where step: "dispatch appOrbit e (h, im) = Some (h1, im1)"
    and dragging: "isDragging im1" and sel: "selectedObject im1 = Some ob"
    and eff: "(case intersection e of
                None \<Rightarrow> lastDragPoint im1 = lastDragPoint im
                        \<and> position (objects h1 ob) = position (objects h ob)
              | Some p \<Rightarrow> lastDragPoint im1 = Some p
                        \<and> position (objects h1 ob) =
                            (case lastDragPoint im of
                               None \<Rightarrow> position (objects h ob)
                             | Some l \<Rightarrow> Vector3_add (position (objects h ob)) (subVectors p l)))"
    by blast
  show ?case
  proof (cases "intersection e")
    case None
    with eff Cons.prems(4) have last1: "lastDragPoint im1 = None"
      and pos1: "position (objects h1 ob) = position (objects h ob)"
      by simp_all
    from Cons.IH [OF rest dragging sel last1, of h1] show ?thesis
      using step None pos1 by simp
  next
    case (Some p)
    with eff Cons.prems(4) have last1: "lastDragPoint im1 = Some p"
      and pos1: "position (objects h1 ob) = position (objects h ob)"
      by simp_all
    from drag_after_reference [OF rest dragging sel last1, of appOrbit h1] show ?thesis
      using step Some pos1 by simp
  qed
qed

text \<open>
  C3, as the code has it. In a drag session that starts with no stored drag
  point, let \<open>P0, ..., Pn\<close> be the plane intersections of its move events, in
  order. All the moves are handled. The first intersection moves nothing and
  each later one adds its difference from the one stored before, both
  operations in double arithmetic: the object ends at
  \<open>(pre \<oplus> (P1 \<ominus> P0)) \<oplus> ... \<oplus> (Pn \<ominus> Pn-1)\<close>. When none of these operations rounds, that
  is the position before the drag plus \<open>Pn - P0\<close>, whatever the points between;
  with one intersection only, or none, the object has not moved.
\<close>

theorem drag_path_independent:
  assumes "\<forall>e \<in> set evs. isMove e"
    and "isDragging im" and "selectedObject im = Some ob" and "lastDragPoint im = None"
  shows "\<exists>h' im'. dispatchAll appOrbit evs (h, im) = Some (h', im')
          \<and> position (objects h' ob)
              = accumulate (position (objects h ob)) (intersections evs)
          \<and> (roundingFree (position (objects h ob)) (intersections evs) \<longrightarrow>
               position (objects h' ob) =
                 (case intersections evs of
                    [] \<Rightarrow> position (objects h ob)
                  | p0 # ps \<Rightarrow>
                      exactAdd (position (objects h ob)) (exactSub (last (p0 # ps)) p0)))"
proof -
  from drag_accumulates [OF assms, of appOrbit h]
  obtain h' im' where run: "dispatchAll appOrbit evs (h, im) = Some (h', im')"
    and acc: "position (objects h' ob)
                = accumulate (position (objects h ob)) (intersections evs)"
    by blast
  have "position (objects h' ob) =
          (case intersections evs of
             [] \<Rightarrow> position (objects h ob)
           | p0 # ps \<Rightarrow>
               exactAdd (position (objects h ob)) (exactSub (last (p0 # ps)) p0))"
    if free: "roundingFree (position (objects h ob)) (intersections evs)"
  proof (cases "intersections evs")
    case Nil
    then show ?thesis using acc by simp
  next
    case (Cons p0 ps)
    with free have "roundingFree (position (objects h ob)) (p0 # ps)" by simp
    from accumulate_roundingFree [OF this] show ?thesis
      using acc Cons by simp
  qed
  with run acc show ?thesis by blast
qed

text \<open>
  A session that rounds. The part is at \<open>x = 1\<close> and the pointer's intersections
  are at \<open>x = 0\<close>, \<open>2\<^sup>-\<^sup>5\<^sup>3\<close> and \<open>2\<^sup>-\<^sup>5\<^sup>2\<close>: each step adds \<open>2\<^sup>-\<^sup>5\<^sup>3\<close> to \<open>1\<close>, a tie that
  rounds back to \<open>1\<close>, and the part ends where it was. Without the intersection
  in the middle the part ends at \<open>1 + 2\<^sup>-\<^sup>5\<^sup>2\<close>, which is the position before the
  drag plus \<open>P2 - P0\<close>.
\<close>

definition halfUlp :: real where
  "halfUlp = 1 / 2 ^ 53"

lemma halfUlp_steps:
  "jsSub halfUlp 0 = halfUlp"
  "jsSub (2 * halfUlp) halfUlp = halfUlp"
  "jsSub (2 * halfUlp) 0 = 2 * halfUlp"
  "jsAdd 1 halfUlp = 1"
  "jsAdd 1 (2 * halfUlp) = 1 + 2 * halfUlp"
  by (simp_all add: jsSub_def jsAdd_def halfUlp_def fl_eval [where e = "- 53"]
        fl_eval [where e = "- 52"] fl_eval [where e = 0] roundTiesToEven_def)

definition positionOf :: "obj \<Rightarrow> im_state \<Rightarrow> Vector3" where
  "positionOf ob s = position (objects (fst s) ob)"

definition unitHeap :: Heap where
  "unitHeap =
     exampleHeap\<lparr>objects := (objects exampleHeap)
        (2 := (objects exampleHeap 2)\<lparr>position := Vector3_set 1 0 0\<rparr>)\<rparr>"

lemma accumulate_through:
  "accumulate (Vector3_set 1 0 0)
     [Vector3_set 0 0 0, Vector3_set halfUlp 0 0, Vector3_set (2 * halfUlp) 0 0]
     = Vector3_set 1 0 0"
  by (simp add: Vector3_add_def subVectors_def Vector3_set_def halfUlp_steps
        jsAdd_def [of 0] jsSub_def [of 0] fl_0)

lemma accumulate_direct:
  "accumulate (Vector3_set 1 0 0) [Vector3_set 0 0 0, Vector3_set (2 * halfUlp) 0 0]
     = Vector3_set (1 + 2 * halfUlp) 0 0"
  by (simp add: Vector3_add_def subVectors_def Vector3_set_def halfUlp_steps
        jsAdd_def [of 0] jsSub_def [of 0] fl_0)

theorem drag_depends_on_path_counterexample:
  "map_option (positionOf 2)
     (dispatchAll (Some 0)
        [MouseMove 0 0 (Some (Vector3_set 0 0 0)),
         MouseMove 1 0 (Some (Vector3_set halfUlp 0 0)),
         MouseMove 2 0 (Some (Vector3_set (2 * halfUlp) 0 0))]
        (unitHeap, exampleManager\<lparr>isDragging := True, selectedObject := Some 2\<rparr>))
     = Some (Vector3_set 1 0 0)
   \<and> map_option (positionOf 2)
     (dispatchAll (Some 0)
        [MouseMove 0 0 (Some (Vector3_set 0 0 0)),
         MouseMove 2 0 (Some (Vector3_set (2 * halfUlp) 0 0))]
        (unitHeap, exampleManager\<lparr>isDragging := True, selectedObject := Some 2\<rparr>))
     = Some (Vector3_set (1 + 2 * halfUlp) 0 0)
   \<and> Vector3_set 1 0 0 \<noteq> Vector3_set (1 + 2 * halfUlp) 0 0"
proof -
  let ?im = "exampleManager\<lparr>isDragging := True, selectedObject := Some 2\<rparr>"
  have start: "position (objects unitHeap 2) = Vector3_set 1 0 0"
    by (simp add: unitHeap_def)
  have session: "isDragging ?im" "selectedObject ?im = Some 2" "lastDragPoint ?im = None"
    by (simp_all add: exampleManager_def)
  from drag_accumulates [OF _ session, where h = unitHeap and appOrbit = "Some 0" and evs =
        "[MouseMove 0 0 (Some (Vector3_set 0 0 0)),
          MouseMove 1 0 (Some (Vector3_set halfUlp 0 0)),
          MouseMove 2 0 (Some (Vector3_set (2 * halfUlp) 0 0))]"]
  obtain h1 im1 where "dispatchAll (Some 0)
        [MouseMove 0 0 (Some (Vector3_set 0 0 0)),
         MouseMove 1 0 (Some (Vector3_set halfUlp 0 0)),
         MouseMove 2 0 (Some (Vector3_set (2 * halfUlp) 0 0))]
        (unitHeap, ?im) = Some (h1, im1)"
    and "position (objects h1 2) = accumulate (Vector3_set 1 0 0)
           [Vector3_set 0 0 0, Vector3_set halfUlp 0 0, Vector3_set (2 * halfUlp) 0 0]"
    unfolding start by fastforce
  then have through: "map_option (positionOf 2)
     (dispatchAll (Some 0)
        [MouseMove 0 0 (Some (Vector3_set 0 0 0)),
         MouseMove 1 0 (Some (Vector3_set halfUlp 0 0)),
         MouseMove 2 0 (Some (Vector3_set (2 * halfUlp) 0 0))]
        (unitHeap, ?im)) = Some (Vector3_set 1 0 0)"
    unfolding accumulate_through by (simp add: positionOf_def)
  from drag_accumulates [OF _ session, where h = unitHeap and appOrbit = "Some 0" and evs =
        "[MouseMove 0 0 (Some (Vector3_set 0 0 0)),
          MouseMove 2 0 (Some (Vector3_set (2 * halfUlp) 0 0))]"]
  obtain h2 im2 where "dispatchAll (Some 0)
        [MouseMove 0 0 (Some (Vector3_set 0 0 0)),
         MouseMove 2 0 (Some (Vector3_set (2 * halfUlp) 0 0))]
        (unitHeap, ?im) = Some (h2, im2)"
    and "position (objects h2 2) = accumulate (Vector3_set 1 0 0)
           [Vector3_set 0 0 0, Vector3_set (2 * halfUlp) 0 0]"
    unfolding start by fastforce
  then have direct: "map_option (positionOf 2)
     (dispatchAll (Some 0)
        [MouseMove 0 0 (Some (Vector3_set 0 0 0)),
         MouseMove 2 0 (Some (Vector3_set (2 * halfUlp) 0 0))]
        (unitHeap, ?im)) = Some (Vector3_set (1 + 2 * halfUlp) 0 0)"
    unfolding accumulate_direct by (simp add: positionOf_def)
  have differ: "Vector3_set 1 0 0 \<noteq> Vector3_set (1 + 2 * halfUlp) 0 0"
    by (simp add: Vector3_set_def halfUlp_def)
  from through direct differ show ?thesis by blast
qed

theorem drag_path_independent_witness:
  "roundingFree (position (objects exampleHeap 2))
     (intersections
        [MouseMove 11 20 (Some (Vector3_set 1 0 0)), MouseMove 12 21 None,
         TouchMove [(13, 22)] (Some (Vector3_set 2 3 0)),
         MouseMove 14 25 (Some (Vector3_set 4 4 4))])
   \<and> (\<exists>h' im'. dispatchAll (Some 0)
       [MouseMove 11 20 (Some (Vector3_set 1 0 0)), MouseMove 12 21 None,
        TouchMove [(13, 22)] (Some (Vector3_set 2 3 0)),
        MouseMove 14 25 (Some (Vector3_set 4 4 4))]
       (exampleHeap, exampleManager\<lparr>isDragging := True, selectedObject := Some 2\<rparr>)
     = Some (h', im')
   \<and> position (objects h' 2) = Vector3_set 3 4 4)"
proof -
  let ?evs = "[MouseMove 11 20 (Some (Vector3_set 1 0 0)), MouseMove 12 21 None,
        TouchMove [(13, 22)] (Some (Vector3_set 2 3 0)),
        MouseMove 14 25 (Some (Vector3_set 4 4 4))]"
  let ?im = "exampleManager\<lparr>isDragging := True, selectedObject := Some 2\<rparr>"
  have moves: "\<forall>e \<in> set ?evs. isMove e"
    by simp
  have session: "isDragging ?im" "selectedObject ?im = Some 2" "lastDragPoint ?im = None"
    by (simp_all add: exampleManager_def)
  have start: "position (objects exampleHeap 2) = Vector3_set 0 0 0"
    by (simp add: exampleHeap_def newGroup_def)
  have free: "roundingFree (position (objects exampleHeap 2)) (intersections ?evs)"
    unfolding start
    by (simp add: Vector3_add_def subVectors_def exactAdd_def exactSub_def Vector3_set_def
          jsAdd_def jsSub_def fl_ints)
  from drag_path_independent [OF moves session, of "Some 0" exampleHeap]
  obtain h' im' where run: "dispatchAll (Some 0) ?evs (exampleHeap, ?im) = Some (h', im')"
    and final: "roundingFree (position (objects exampleHeap 2)) (intersections ?evs) \<longrightarrow>
               position (objects h' 2) =
                 (case intersections ?evs of
                    [] \<Rightarrow> position (objects exampleHeap 2)
                  | p0 # ps \<Rightarrow>
                      exactAdd (position (objects exampleHeap 2)) (exactSub (last (p0 # ps)) p0))"
    by blast
  from final free have "position (objects h' 2) = Vector3_set 3 4 4"
    unfolding start by (simp add: exactAdd_def exactSub_def Vector3_set_def)
  with run free show ?thesis by blast
qed

subsection \<open>XR rotation mode\<close>

lemma multiply_identity_left:
  assumes "isDouble (qx q)" and "isDouble (qy q)" and "isDouble (qz q)" and "isDouble (qw q)"
  shows "multiply identityQuaternion q = q"
  using assms
  by (simp add: multiply_def identityQuaternion_def isDouble_def jsMul_def jsAdd_def jsSub_def
        fl_0)

lemma squeeze_then_update:
  assumes "selectedObject im = Some ob" and "activeController im = Some c"
    and "isXRSessionActive im"
    and "quaternion (objects h c0) = C0" and "quaternion (objects h ob) = O0"
    and "im1 = snd (onControllerSqueezeStart c0 (h, im))"
    and "quaternion (objects h2 c) = C1"
  shows "quaternion (objects (fst (fst (update isMobile (h2, im1)))) ob)
           = multiply (multiply C1 (invert C0)) O0"
proof -
  have im1: "im1 = im\<lparr>rotationMode := True, startControllerQuaternion := C0,
                       startObjectQuaternion := O0\<rparr>"
    using assms by (simp add: onControllerSqueezeStart_def)
  show ?thesis
    using assms(1,2,3,7) unfolding im1
    by (simp add: update_def Let_def split: option.split)
qed

text \<open>
  C4, as the code has it. An object is selected by an active controller in an
  XR session. A squeeze starts rotation mode when the squeezing controller has
  orientation \<open>C0\<close> and the object \<open>O0\<close>. A later frame update that finds the
  active controller at orientation \<open>C1\<close> sets the object's orientation to
  \<open>(C1 * C0\<^sup>-\<^sup>1) * O0\<close>, where the product is \<^verbatim>\<open>Quaternion.multiply\<close> in double
  arithmetic and the inverse is the conjugate. When \<open>C1 = C0\<close>, the object is
  back at \<open>O0\<close> if the computed product of \<open>C0\<close> and its conjugate is the identity
  quaternion (and the components of \<open>O0\<close> are doubles).
\<close>

theorem rotation_snapshot:
  assumes "selectedObject im = Some ob" and "activeController im = Some c"
    and "isXRSessionActive im"
    and "quaternion (objects h c0) = C0" and "quaternion (objects h ob) = O0"
    and "im1 = snd (onControllerSqueezeStart c0 (h, im))"
    and "quaternion (objects h2 c) = C1"
  shows "quaternion (objects (fst (fst (update isMobile (h2, im1)))) ob)
           = multiply (multiply C1 (invert C0)) O0
       \<and> (C1 = C0 \<and> multiply C0 (invert C0) = identityQuaternion
           \<and> isDouble (qx O0) \<and> isDouble (qy O0) \<and> isDouble (qz O0) \<and> isDouble (qw O0) \<longrightarrow>
            quaternion (objects (fst (fst (update isMobile (h2, im1)))) ob) = O0)"
proof -
  have turned: "quaternion (objects (fst (fst (update isMobile (h2, im1)))) ob)
           = multiply (multiply C1 (invert C0)) O0"
    using assms by (rule squeeze_then_update)
  have restored: "multiply (multiply C0 (invert C0)) O0 = O0"
    if "multiply C0 (invert C0) = identityQuaternion"
      and "isDouble (qx O0)" and "isDouble (qy O0)" and "isDouble (qz O0)" and "isDouble (qw O0)"
    using that by (simp add: multiply_identity_left)
  show ?thesis
    using turned restored by simp
qed

text \<open>
  A half turn about the \<open>x\<close> axis satisfies the condition: with the controller
  still at \<open>C0\<close> the object keeps its orientation, and with the controller at
  the identity it is turned by the inverse of \<open>C0\<close>.
\<close>

definition xrHeap :: Heap where
  "xrHeap =
     exampleHeap\<lparr>objects := (objects exampleHeap)
        (6 := (objects exampleHeap 6)\<lparr>quaternion := \<lparr>qx = 1, qy = 0, qz = 0, qw = 0\<rparr>\<rparr>,
         2 := (objects exampleHeap 2)\<lparr>quaternion := \<lparr>qx = 0, qy = 1, qz = 0, qw = 0\<rparr>\<rparr>)\<rparr>"

definition xrManager :: InteractionManager where
  "xrManager =
     exampleManager\<lparr>isXRSessionActive := True, selectedObject := Some 2,
                     activeController := Some 6\<rparr>"

lemma half_turn_products:
  "multiply \<lparr>qx = 1, qy = 0, qz = 0, qw = 0\<rparr> (invert \<lparr>qx = 1, qy = 0, qz = 0, qw = 0\<rparr>)
     = identityQuaternion"
  "multiply (multiply identityQuaternion (invert \<lparr>qx = 1, qy = 0, qz = 0, qw = 0\<rparr>))
     \<lparr>qx = 0, qy = 1, qz = 0, qw = 0\<rparr> = \<lparr>qx = 0, qy = 0, qz = - 1, qw = 0\<rparr>"
  by (simp_all add: multiply_def invert_def conjugate_def identityQuaternion_def
        jsMul_def jsAdd_def jsSub_def fl_ints)

theorem rotation_snapshot_witness:
  "multiply \<lparr>qx = 1, qy = 0, qz = 0, qw = 0\<rparr> (invert \<lparr>qx = 1, qy = 0, qz = 0, qw = 0\<rparr>)
     = identityQuaternion
   \<and> isDouble 0 \<and> isDouble 1
   \<and> quaternion (objects
        (fst (fst (update False (xrHeap, snd (onControllerSqueezeStart 6 (xrHeap, xrManager))))))
        2) = \<lparr>qx = 0, qy = 1, qz = 0, qw = 0\<rparr>
   \<and> quaternion (objects
        (fst (fst (update False
           (xrHeap\<lparr>objects := (objects xrHeap)
                     (6 := (objects xrHeap 6)\<lparr>quaternion := identityQuaternion\<rparr>)\<rparr>,
            snd (onControllerSqueezeStart 6 (xrHeap, xrManager))))))
        2) = \<lparr>qx = 0, qy = 0, qz = - 1, qw = 0\<rparr>"
proof -
  let ?h2 = "xrHeap\<lparr>objects := (objects xrHeap)
                     (6 := (objects xrHeap 6)\<lparr>quaternion := identityQuaternion\<rparr>)\<rparr>"
  have sel: "selectedObject xrManager = Some 2"
    and act: "activeController xrManager = Some 6"
    and xr: "isXRSessionActive xrManager"
    by (simp_all add: xrManager_def)
  have c0: "quaternion (objects xrHeap 6) = \<lparr>qx = 1, qy = 0, qz = 0, qw = 0\<rparr>"
    and o0: "quaternion (objects xrHeap 2) = \<lparr>qx = 0, qy = 1, qz = 0, qw = 0\<rparr>"
    by (simp_all add: xrHeap_def)
  have c1: "quaternion (objects ?h2 6) = identityQuaternion"
    by simp
  have doubles: "isDouble 0" "isDouble 1"
    by (simp_all add: isDouble_def fl_ints)
  have same: "quaternion (objects
        (fst (fst (update False (xrHeap, snd (onControllerSqueezeStart 6 (xrHeap, xrManager))))))
        2) = \<lparr>qx = 0, qy = 1, qz = 0, qw = 0\<rparr>"
    by (rule rotation_snapshot [OF sel act xr c0 o0 refl c0, of False, THEN conjunct2, THEN mp])
       (simp add: half_turn_products(1) doubles)
  from rotation_snapshot [OF sel act xr c0 o0 refl c1, of False]
  have other: "quaternion (objects
        (fst (fst (update False (?h2, snd (onControllerSqueezeStart 6 (xrHeap, xrManager))))))
        2) = \<lparr>qx = 0, qy = 0, qz = - 1, qw = 0\<rparr>"
    unfolding half_turn_products(2) by blast
  from half_turn_products(1) doubles same other show ?thesis
    by blast
qed

text \<open>
  A quarter turn about the \<open>x\<close> axis does not. \<open>C0 = (s, 0, 0, s)\<close> with \<open>s\<close> the
  double nearest to the square root of one half (\<^verbatim>\<open>Math.SQRT1_2\<close>). The product
  of \<open>C0\<close> and its conjugate has \<open>w = 1 + 2\<^sup>-\<^sup>5\<^sup>2\<close>, and an object at the identity
  orientation, with the controller not moved at all, is left at
  \<open>(0, 0, 0, 1 + 2\<^sup>-\<^sup>5\<^sup>2)\<close>.
\<close>

definition sqrtHalf :: real where
  "sqrtHalf = 6369051672525773 / 2 ^ 53"

definition aboveHalf :: real where
  "aboveHalf = 1 / 2 + 1 / 2 ^ 53"

definition aboveOne :: real where
  "aboveOne = 1 + 1 / 2 ^ 52"

lemma sqrtHalf_products:
  "jsMul sqrtHalf sqrtHalf = aboveHalf"
  "jsMul sqrtHalf (- sqrtHalf) = - aboveHalf"
  "jsAdd aboveHalf (- aboveHalf) = 0"
  "jsSub aboveHalf (- aboveHalf) = aboveOne"
  "jsSub aboveOne 0 = aboveOne"
  "jsMul aboveOne 1 = aboveOne"
  by (simp_all add: jsMul_def jsAdd_def jsSub_def sqrtHalf_def aboveHalf_def aboveOne_def fl_0
        fl_eval [where e = "- 1"] fl_eval [where e = 0] roundTiesToEven_def)

definition quarterTurnHeap :: Heap where
  "quarterTurnHeap =
     exampleHeap\<lparr>objects := (objects exampleHeap)
        (6 := (objects exampleHeap 6)
           \<lparr>quaternion := \<lparr>qx = sqrtHalf, qy = 0, qz = 0, qw = sqrtHalf\<rparr>\<rparr>)\<rparr>"

lemma quarter_turn_product:
  "multiply (multiply \<lparr>qx = sqrtHalf, qy = 0, qz = 0, qw = sqrtHalf\<rparr>
               (invert \<lparr>qx = sqrtHalf, qy = 0, qz = 0, qw = sqrtHalf\<rparr>))
     identityQuaternion = \<lparr>qx = 0, qy = 0, qz = 0, qw = aboveOne\<rparr>"
  by (simp add: multiply_def invert_def conjugate_def identityQuaternion_def
        sqrtHalf_products jsMul_zero js_zero)

theorem rotation_not_restored_counterexample:
  "quaternion (objects quarterTurnHeap 2) = identityQuaternion
   \<and> quaternion (objects
        (fst (fst (update False
           (quarterTurnHeap, snd (onControllerSqueezeStart 6 (quarterTurnHeap, xrManager))))))
        2) = \<lparr>qx = 0, qy = 0, qz = 0, qw = aboveOne\<rparr>
   \<and> \<lparr>qx = 0, qy = 0, qz = 0, qw = aboveOne\<rparr> \<noteq> identityQuaternion"
proof -
  have o0: "quaternion (objects quarterTurnHeap 2) = identityQuaternion"
    by (simp add: quarterTurnHeap_def exampleHeap_def newGroup_def)
  have c0: "quaternion (objects quarterTurnHeap 6)
              = \<lparr>qx = sqrtHalf, qy = 0, qz = 0, qw = sqrtHalf\<rparr>"
    by (simp add: quarterTurnHeap_def)
  have sel: "selectedObject xrManager = Some 2"
    and act: "activeController xrManager = Some 6"
    and xr: "isXRSessionActive xrManager"
    by (simp_all add: xrManager_def)
  have "quaternion (objects
        (fst (fst (update False
           (quarterTurnHeap, snd (onControllerSqueezeStart 6 (quarterTurnHeap, xrManager))))))
        2) = multiply (multiply \<lparr>qx = sqrtHalf, qy = 0, qz = 0, qw = sqrtHalf\<rparr>
               (invert \<lparr>qx = sqrtHalf, qy = 0, qz = 0, qw = sqrtHalf\<rparr>))
             identityQuaternion"
    using sel act xr c0 o0 refl c0 by (rule squeeze_then_update)
  then have moved: "quaternion (objects
        (fst (fst (update False
           (quarterTurnHeap, snd (onControllerSqueezeStart 6 (quarterTurnHeap, xrManager))))))
        2) = \<lparr>qx = 0, qy = 0, qz = 0, qw = aboveOne\<rparr>"
    unfolding quarter_turn_product .
  have differ: "\<lparr>qx = 0, qy = 0, qz = 0, qw = aboveOne\<rparr> \<noteq> identityQuaternion"
    by (simp add: identityQuaternion_def aboveOne_def)
  from o0 moved differ show ?thesis by blast
qed

subsection \<open>Drag sessions and presses\<close>

text \<open>
  The walk up the parent links returns whenever the chain of parents, followed
  from the hit object, reaches the scene or a node without parent within some
  number of links, as it does in a scene graph that is a tree.
\<close>

fun chainEnds :: "(obj \<Rightarrow> Object3D) \<Rightarrow> obj \<Rightarrow> nat \<Rightarrow> obj option \<Rightarrow> bool" where
  "chainEnds objs sc n None = True"
| "chainEnds objs sc 0 (Some ob) = (ob = sc)"
| "chainEnds objs sc (Suc n) (Some ob) = (ob = sc \<or> chainEnds objs sc n (parent (objs ob)))"

lemma findTopLevelDraggable_returns:
  "chainEnds objs sc n object \<Longrightarrow>
     \<exists>r. findTopLevelDraggable objs draggable sc object topLevelDraggable = Some r"
proof (induction n arbitrary: object topLevelDraggable)
  case 0
  then show ?case
    by (cases object) (simp_all add: findTopLevelDraggable.simps)
next
  case (Suc n)
  show ?case
  proof (cases object)
    case None
    then show ?thesis by (simp add: findTopLevelDraggable.simps)
  next
    case (Some ob)
    show ?thesis
    proof (cases "ob = sc")
      case True
      with Some show ?thesis by (simp add: findTopLevelDraggable.simps)
    next
      case False
      with Suc.prems Some have "chainEnds objs sc n (parent (objs ob))" by simp
      from Suc.IH [OF this] show ?thesis
        using Some False by (subst findTopLevelDraggable.simps) simp
    qed
  qed
qed

lemma switchOrbitControls_frame:
  "objects (switchOrbitControls b appOrbit im h) = objects h"
  "arrays (switchOrbitControls b appOrbit im h) = arrays h"
  "nextArray (switchOrbitControls b appOrbit im h) = nextArray h"
  "nextObject (switchOrbitControls b appOrbit im h) = nextObject h"
  by (simp_all add: switchOrbitControls_def Let_def split: option.split)

lemma handleDrag_session:
  "isDragging (snd (handleDrag x y hit s)) = isDragging (snd s)"
  "selectedObject (snd (handleDrag x y hit s)) = selectedObject (snd s)"
  by (cases s; simp add: handleDrag_def Let_def split: option.split)+

lemma selectForDrag_hit:
  assumes "findTopLevelDraggable (objects h) (arrays h (draggableObjects im)) (scene im)
             (Some hit) None = Some (Some t)"
  shows "selectForDrag appOrbit x y (hit # others) (h, im)
           = Some (disableOrbitControls appOrbit im h,
                   im\<lparr>isDragging := True, selectedObject := Some t,
                      lastMousePosition := \<lparr>px = x, py = y\<rparr>, lastDragPoint := None\<rparr>)"
  using assms by (simp add: selectForDrag_def)

lemma selectForDrag_miss:
  assumes "findTopLevelDraggable (objects h) (arrays h (draggableObjects im)) (scene im)
             (Some hit) None = Some None"
  shows "selectForDrag appOrbit x y (hit # others) (h, im) = Some (h, im)"
  using assms by (simp add: selectForDrag_def)

lemma selectForDrag_slot:
  assumes "selectForDrag appOrbit x y intersects s = Some s'"
    and "isDragging (snd s) = (selectedObject (snd s) \<noteq> None)"
  shows "isDragging (snd s') = (selectedObject (snd s') \<noteq> None)"
  using assms
  by (cases s) (auto simp add: selectForDrag_def split: list.splits option.splits)

lemma dispatch_slot:
  assumes "dispatch appOrbit e s = Some s'"
    and "isDragging (snd s) = (selectedObject (snd s) \<noteq> None)"
  shows "isDragging (snd s') = (selectedObject (snd s') \<noteq> None)"
proof (cases e)
  case (MouseDown x y intersects)
  then show ?thesis
    using assms selectForDrag_slot [of appOrbit x y intersects s s']
    by (auto simp add: onMouseDown_def split: if_splits)
next
  case (MouseMove x y hit)
  then show ?thesis
    using assms by (auto simp add: onMouseMove_def handleDrag_session split: if_splits)
next
  case MouseUp
  then show ?thesis
    using assms by (cases s) (auto simp add: onMouseUp_def split: if_splits)
next
  case (TouchStart touches intersects)
  show ?thesis
  proof (cases "\<exists>t. touches = [t]")
    case True
    then obtain t where "touches = [t]" by blast
    then show ?thesis
      using assms TouchStart selectForDrag_slot [of appOrbit "fst t" "snd t" intersects s s']
      by (auto simp add: onTouchStart_def split: if_splits)
  next
    case False
    then have "onTouchStart appOrbit touches intersects s = Some s"
      by (cases touches) (auto simp add: onTouchStart_def split: list.split)
    then show ?thesis using assms TouchStart by simp
  qed
next
  case (TouchMove touches hit)
  then show ?thesis
    using assms
    by (auto simp add: onTouchMove_def handleDrag_session split: if_splits list.splits)
next
  case TouchEnd
  then show ?thesis
    using assms by (cases s) (auto simp add: onTouchEnd_def split: if_splits)
qed

lemma dispatchAll_slot:
  assumes "dispatchAll appOrbit evs s = Some s'"
    and "isDragging (snd s) = (selectedObject (snd s) \<noteq> None)"
  shows "isDragging (snd s') = (selectedObject (snd s') \<noteq> None)"
  using assms
proof (induction evs arbitrary: s)
  case Nil
  then show ?case by simp
next
  case (Cons e es)
  then obtain s1 where step: "dispatch appOrbit e s = Some s1"
    and rest: "dispatchAll appOrbit es s1 = Some s'"
    by (auto split: option.splits)
  from dispatch_slot [OF step Cons.prems(2)] Cons.IH [OF rest] show ?case
    by simp
qed

text \<open>
  C1, as the code has it. The manager keeps one selected object, and along
  every sequence of mouse and touch presses, moves and releases \<open>isDragging\<close>
  holds exactly when an object is selected. The press handlers do not look at
  the session before hit-testing: outside XR, a mouse press or a press with
  one touch whose hit resolves to the draggable object \<open>t\<close> makes \<open>t\<close> the
  selected object and restarts the session, whatever was selected before; a
  press whose hit resolves to no draggable object changes nothing.
\<close>

theorem press_replaces_selection:
  "(isDragging im = (selectedObject im \<noteq> None) \<longrightarrow>
      (case dispatchAll appOrbit evs (h, im) of
         None \<Rightarrow> True
       | Some s' \<Rightarrow> isDragging (snd s') = (selectedObject (snd s') \<noteq> None)))
   \<and> (\<not> isXRSessionActive im
        \<and> findTopLevelDraggable (objects h) (arrays h (draggableObjects im)) (scene im)
             (Some hit) None = Some (Some t) \<longrightarrow>
        map_option snd (onMouseDown appOrbit x y (hit # others) (h, im))
          = Some (im\<lparr>isDragging := True, selectedObject := Some t,
                     lastMousePosition := \<lparr>px = x, py = y\<rparr>, lastDragPoint := None\<rparr>)
        \<and> map_option snd (onTouchStart appOrbit [(x, y)] (hit # others) (h, im))
          = Some (im\<lparr>isDragging := True, selectedObject := Some t,
                     lastMousePosition := \<lparr>px = x, py = y\<rparr>, lastDragPoint := None\<rparr>))
   \<and> (findTopLevelDraggable (objects h) (arrays h (draggableObjects im)) (scene im)
             (Some hit) None = Some None \<longrightarrow>
        onMouseDown appOrbit x y (hit # others) (h, im) = Some (h, im)
        \<and> onTouchStart appOrbit [(x, y)] (hit # others) (h, im) = Some (h, im))"
proof (intro conjI impI)
  assume "isDragging im = (selectedObject im \<noteq> None)"
  then show "case dispatchAll appOrbit evs (h, im) of
         None \<Rightarrow> True
       | Some s' \<Rightarrow> isDragging (snd s') = (selectedObject (snd s') \<noteq> None)"
    using dispatchAll_slot [of appOrbit evs "(h, im)"]
    by (simp split: option.split)
next
  assume a: "\<not> isXRSessionActive im
        \<and> findTopLevelDraggable (objects h) (arrays h (draggableObjects im)) (scene im)
             (Some hit) None = Some (Some t)"
  then show "map_option snd (onMouseDown appOrbit x y (hit # others) (h, im))
          = Some (im\<lparr>isDragging := True, selectedObject := Some t,
                     lastMousePosition := \<lparr>px = x, py = y\<rparr>, lastDragPoint := None\<rparr>)"
    by (simp add: onMouseDown_def selectForDrag_hit)
  from a show "map_option snd (onTouchStart appOrbit [(x, y)] (hit # others) (h, im))
          = Some (im\<lparr>isDragging := True, selectedObject := Some t,
                     lastMousePosition := \<lparr>px = x, py = y\<rparr>, lastDragPoint := None\<rparr>)"
    by (simp add: onTouchStart_def selectForDrag_hit)
next
  assume a: "findTopLevelDraggable (objects h) (arrays h (draggableObjects im)) (scene im)
             (Some hit) None = Some None"
  then show "onMouseDown appOrbit x y (hit # others) (h, im) = Some (h, im)"
    by (simp add: onMouseDown_def selectForDrag_miss)
  from a show "onTouchStart appOrbit [(x, y)] (hit # others) (h, im) = Some (h, im)"
    by (simp add: onTouchStart_def selectForDrag_miss)
qed

text \<open>
  Presses in the example scene: a mouse press on the model \<open>4\<close> selects part \<open>2\<close>;
  a touch on the model \<open>5\<close>, while that session is active, selects part \<open>3\<close>
  in its place.
\<close>

lemma example_press_mouse:
  "dispatch (Some 0) (MouseDown 10 20 [4]) (exampleHeap, exampleManager)
     = Some (disableOrbitControls (Some 0) exampleManager exampleHeap,
             exampleManager\<lparr>isDragging := True, selectedObject := Some 2,
                lastMousePosition := \<lparr>px = 10, py = 20\<rparr>, lastDragPoint := None\<rparr>)"
  by (simp add: onMouseDown_def selectForDrag_def exampleManager_def example_walk_4
        exampleHeap_arrays)

lemma example_press_touch:
  "dispatch (Some 0) (TouchStart [(30, 40)] [5])
       (disableOrbitControls (Some 0) exampleManager exampleHeap,
        exampleManager\<lparr>isDragging := True, selectedObject := Some 2,
           lastMousePosition := \<lparr>px = 10, py = 20\<rparr>, lastDragPoint := None\<rparr>)
     = Some (disableOrbitControls (Some 0)
               (exampleManager\<lparr>isDragging := True, selectedObject := Some 2,
                  lastMousePosition := \<lparr>px = 10, py = 20\<rparr>, lastDragPoint := None\<rparr>)
               (disableOrbitControls (Some 0) exampleManager exampleHeap),
             exampleManager\<lparr>isDragging := True, selectedObject := Some 3,
                lastMousePosition := \<lparr>px = 30, py = 40\<rparr>, lastDragPoint := None\<rparr>)"
  by (simp add: onTouchStart_def selectForDrag_def exampleManager_def example_walk_5
        exampleHeap_arrays disableOrbitControls_def switchOrbitControls_frame)

theorem press_during_session_counterexample:
  "map_option (isDragging \<circ> snd)
       (dispatchAll (Some 0) [MouseDown 10 20 [4]] (exampleHeap, exampleManager)) = Some True
   \<and> map_option (selectedObject \<circ> snd)
       (dispatchAll (Some 0) [MouseDown 10 20 [4]] (exampleHeap, exampleManager)) = Some (Some 2)
   \<and> map_option (selectedObject \<circ> snd)
       (dispatchAll (Some 0) [MouseDown 10 20 [4], TouchStart [(30, 40)] [5]]
          (exampleHeap, exampleManager)) = Some (Some 3)"
  by (simp add: example_press_mouse example_press_touch del: dispatch.simps)

definition draggingManager :: InteractionManager where
  "draggingManager = exampleManager\<lparr>isDragging := True, selectedObject := Some 2\<rparr>"

lemma example_walk_6:
  "findTopLevelDraggable (objects exampleHeap) [2, 3] 0 (Some 6) None = Some None"
  by (simp add: findTopLevelDraggable.simps exampleHeap_def newGroup_def)

theorem press_replaces_selection_witness:
  "isDragging draggingManager = (selectedObject draggingManager \<noteq> None)
   \<and> (case dispatchAll (Some 0) [MouseUp] (exampleHeap, draggingManager) of
         None \<Rightarrow> False
       | Some s' \<Rightarrow> isDragging (snd s') = (selectedObject (snd s') \<noteq> None))
   \<and> \<not> isXRSessionActive draggingManager
   \<and> findTopLevelDraggable (objects exampleHeap)
        (arrays exampleHeap (draggableObjects draggingManager)) (scene draggingManager)
        (Some 5) None = Some (Some 3)
   \<and> map_option (selectedObject \<circ> snd)
        (onTouchStart (Some 0) [(30, 40)] [5] (exampleHeap, draggingManager)) = Some (Some 3)
   \<and> findTopLevelDraggable (objects exampleHeap)
        (arrays exampleHeap (draggableObjects draggingManager)) (scene draggingManager)
        (Some 6) None = Some None
   \<and> onMouseDown (Some 0) 1 2 [6] (exampleHeap, draggingManager)
        = Some (exampleHeap, draggingManager)"
proof -
  have slot: "isDragging draggingManager = (selectedObject draggingManager \<noteq> None)"
    and nonxr: "\<not> isXRSessionActive draggingManager"
    by (simp_all add: draggingManager_def exampleManager_def)
  have fields: "arrays exampleHeap (draggableObjects draggingManager) = [2, 3]"
    "scene draggingManager = 0"
    by (simp_all add: draggingManager_def exampleManager_def exampleHeap_arrays)
  have up: "dispatchAll (Some 0) [MouseUp] (exampleHeap, draggingManager) \<noteq> None"
    by simp
  have hit: "findTopLevelDraggable (objects exampleHeap)
        (arrays exampleHeap (draggableObjects draggingManager)) (scene draggingManager)
        (Some 5) None = Some (Some 3)"
    by (simp add: fields example_walk_5)
  have miss: "findTopLevelDraggable (objects exampleHeap)
        (arrays exampleHeap (draggableObjects draggingManager)) (scene draggingManager)
        (Some 6) None = Some None"
    by (simp add: fields example_walk_6)
  from press_replaces_selection [where im = draggingManager and appOrbit = "Some 0"
      and evs = "[MouseUp]" and h = exampleHeap and hit = 5 and t = 3 and x = 30 and y = 40
      and others = "[]"]
  have one: "(case dispatchAll (Some 0) [MouseUp] (exampleHeap, draggingManager) of
         None \<Rightarrow> True
       | Some s' \<Rightarrow> isDragging (snd s') = (selectedObject (snd s') \<noteq> None))"
    and two: "map_option snd (onTouchStart (Some 0) [(30, 40)] [5] (exampleHeap, draggingManager))
          = Some (draggingManager\<lparr>isDragging := True, selectedObject := Some 3,
                     lastMousePosition := \<lparr>px = 30, py = 40\<rparr>, lastDragPoint := None\<rparr>)"
    using slot nonxr hit by blast+
  from press_replaces_selection [where im = draggingManager and appOrbit = "Some 0"
      and evs = "[]" and h = exampleHeap and hit = 6 and x = 1 and y = 2 and others = "[]"]
  have three: "onMouseDown (Some 0) 1 2 [6] (exampleHeap, draggingManager)
        = Some (exampleHeap, draggingManager)"
    using miss by blast
  have one': "(case dispatchAll (Some 0) [MouseUp] (exampleHeap, draggingManager) of
         None \<Rightarrow> False
       | Some s' \<Rightarrow> isDragging (snd s') = (selectedObject (snd s') \<noteq> None))"
    using one up by (simp split: option.splits)
  have two': "map_option (selectedObject \<circ> snd)
        (onTouchStart (Some 0) [(30, 40)] [5] (exampleHeap, draggingManager)) = Some (Some 3)"
    using two by (auto simp add: map_option_case split: option.splits)
  show ?thesis
    using slot one' nonxr hit two' miss three by blast
qed

subsection \<open>App: state\<close>

text \<open>
  The fields of \<^verbatim>\<open>App\<close> that the registry, the placement flow and the render
  loop use. \<open>loadedModels\<close> is the \<^verbatim>\<open>Map\<close> from name to container, in insertion
  order. \<open>app_draggableObjects\<close>, \<open>app_isDragging\<close> and \<open>app_orbitControls\<close> are
  the app's own \<^verbatim>\<open>draggableObjects\<close>, \<^verbatim>\<open>isDragging\<close> and \<^verbatim>\<open>orbitControls\<close>
  (the manager has fields of the same names); \<open>floorMesh\<close> is \<^verbatim>\<open>this.floor\<close>.
  \<open>productGroup\<close> is created in \<^verbatim>\<open>init\<close> and never reassigned. A DOM element
  is its \<^verbatim>\<open>style.display\<close>, \<open>None\<close> before the element is created.
  \<open>selectListenerBound\<close> tells whether \<^verbatim>\<open>onSelectEventBound\<close> is registered on the
  XR session.
\<close>

record App =
  loadedModels :: "(string \<times> obj) list"
  app_draggableObjects :: "obj list"
  isARMode :: bool
  isPlacingProduct :: bool
  app_isDragging :: bool
  hitTestSource :: "nat option"
  productGroup :: obj
  floorMesh :: "obj option"
  placementReticle :: "obj option"
  placementMessage :: "string option"
  placeAgainButton :: "string option"
  rotateLeftBtn :: "string option"
  rotateRightBtn :: "string option"
  selectListenerBound :: bool
  app_orbitControls :: orbit
  interactionManager :: "InteractionManager option"

type_synonym app_state = "Heap \<times> App"

subsection \<open>App: the model registry\<close>

text \<open>\<^verbatim>\<open>Array.from(...)\<close>: a new array on the heap.\<close>

definition newArray :: "obj list \<Rightarrow> Heap \<Rightarrow> Heap \<times> addr" where
  "newArray xs h =
     (h\<lparr>arrays := (arrays h)(nextArray h := xs), nextArray := Suc (nextArray h)\<rparr>,
      nextArray h)"

text \<open>
  \<^verbatim>\<open>updateDragControls\<close>, and the same three lines at the end of the load
  callback: the values of \<open>loadedModels\<close> go to the manager as a new array.
\<close>

definition updateDragControls :: "app_state \<Rightarrow> app_state" where
  "updateDragControls s =
     (case s of (h, app) \<Rightarrow>
        (case interactionManager app of
           None \<Rightarrow> (h, app)
         | Some im \<Rightarrow>
             (case newArray (map snd (loadedModels app)) h of
                (h', a) \<Rightarrow> (h', app\<lparr>interactionManager := Some (setDraggableObjects a im)\<rparr>))))"

text \<open>
  The success callback of \<^verbatim>\<open>gltfLoader.load\<close> in \<^verbatim>\<open>loadModel(url, name)\<close>. The
  loader hands over a scene object of its own making, \<open>gltfScene\<close>, which gets
  the next free address; the container is a new group. \<^verbatim>\<open>Map.set\<close> replaces
  the value of a name that is present, in place, and appends otherwise, as
  \<^const>\<open>AList.update\<close> does. \<^verbatim>\<open>fitCameraToScene\<close> writes the camera and the orbit
  target only, and saving an uploaded file to IndexedDB writes nothing of the
  app. A load that fails registers nothing.
\<close>

definition loadModel_onLoad :: "string \<Rightarrow> Object3D \<Rightarrow> app_state \<Rightarrow> app_state" where
  "loadModel_onLoad name gltfScene s =
     (case s of (h, app) \<Rightarrow>
        (let model = nextObject h;
             container = Suc (nextObject h);
             objs1 = (objects h)(model := gltfScene\<lparr>parent := None\<rparr>, container := newGroup);
             objs2 = Object3D_add container model objs1;
             app1 = app\<lparr>app_draggableObjects := app_draggableObjects app @ [container]\<rparr>;
             objs3 = Object3D_add (productGroup app1) container objs2;
             app2 = app1\<lparr>loadedModels := AList.update name container (loadedModels app1)\<rparr>
         in updateDragControls
              (h\<lparr>objects := objs3, nextObject := Suc (Suc (nextObject h))\<rparr>, app2)))"

text \<open>\<^verbatim>\<open>clearExistingModels\<close>.\<close>

definition clearExistingModels :: "app_state \<Rightarrow> app_state" where
  "clearExistingModels s =
     (case s of (h, app) \<Rightarrow>
        (let objs1 = fold (\<lambda>model objs.
                             if parent (objs model) \<noteq> None
                             then Object3D_remove (productGroup app) model objs
                             else objs)
                       (map snd (loadedModels app)) (objects h);
             app1 = app\<lparr>loadedModels := [], app_draggableObjects := []\<rparr>
         in updateDragControls (h\<lparr>objects := objs1\<rparr>, app1)))"

text \<open>A register is a load that succeeded; the operations run in arrival order.\<close>

datatype RegistryOp = Register string Object3D | Clear

fun applyOp :: "RegistryOp \<Rightarrow> app_state \<Rightarrow> app_state" where
  "applyOp (Register name gltfScene) s = loadModel_onLoad name gltfScene s"
| "applyOp Clear s = clearExistingModels s"

fun applyOps :: "RegistryOp list \<Rightarrow> app_state \<Rightarrow> app_state" where
  "applyOps [] s = s"
| "applyOps (op # ops) s = applyOps ops (applyOp op s)"

text \<open>The names registered and not cleared since, starting from the names \<open>S\<close>.\<close>

fun registeredNames :: "string set \<Rightarrow> RegistryOp list \<Rightarrow> string set" where
  "registeredNames S [] = S"
| "registeredNames S (Register name gltfScene # ops) = registeredNames (insert name S) ops"
| "registeredNames S (Clear # ops) = registeredNames {} ops"

subsection \<open>App: AR tap-to-place\<close>

text \<open>
  \<^verbatim>\<open>new THREE.Box3().setFromObject(group).min.y\<close>, the lowest world-space \<open>y\<close> of
  the group's meshes. The product group is a child of the scene, which is
  never transformed, so a point of the group is at its position plus the
  rotated and scaled local point: the box's minimum is the \<open>y\<close> of the group's
  position plus \<open>contentMinY\<close> (a rounded sum), the lowest \<open>y\<close> of the group's
  content relative to the group's origin under the group's present rotation
  and scale. The meshes are not part of the model; \<open>contentMinY\<close> is an argument. (The group
  holds a mesh: for an empty group three.js gives \<^verbatim>\<open>+Infinity\<close>.)
\<close>

definition setFromObject_min_y :: "real \<Rightarrow> Heap \<Rightarrow> obj \<Rightarrow> real" where
  "setFromObject_min_y contentMinY h g = jsAdd (vy (position (objects h g))) contentMinY"

text \<open>
  \<^verbatim>\<open>onSelectEvent\<close>. \<open>hitTestResults\<close> is \<^verbatim>\<open>frame.getHitTestResults(hitTestSource)\<close>,
  each result given by the position of its pose; \<^verbatim>\<open>getPose\<close> is taken to
  return a pose.
\<close>

definition onSelectEvent :: "real \<Rightarrow> Vector3 list \<Rightarrow> app_state \<Rightarrow> app_state" where
  "onSelectEvent contentMinY hitTestResults s =
     (case s of (h, app) \<Rightarrow>
        (if isPlacingProduct app \<and> hitTestSource app \<noteq> None
         then (case hitTestResults of
                 [] \<Rightarrow> (h, app)
               | pose # _ \<Rightarrow>
                   (let g = productGroup app;
                        offsetY = setFromObject_min_y contentMinY h g;
                        objs1 = (objects h)(g := (objects h g)\<lparr>visible := True\<rparr>);
                        objs2 = objs1(g := (objs1 g)
                                  \<lparr>position := Vector3_set (vx pose) (jsSub (vy pose) offsetY) (vz pose)\<rparr>);
                        objs3 = (case floorMesh app of
                                   None \<Rightarrow> objs2
                                 | Some f \<Rightarrow>
                                     objs2(f := (objs2 f)
                                       \<lparr>position := Vector3_set (vx pose) (vy pose) (vz pose),
                                        visible := True\<rparr>));
                        objs4 = (case placementReticle app of
                                   None \<Rightarrow> objs3
                                 | Some r \<Rightarrow> objs3(r := (objs3 r)\<lparr>visible := False\<rparr>))
                    in (h\<lparr>objects := objs4\<rparr>,
                        app\<lparr>isPlacingProduct := False,
                            placementMessage := map_option (\<lambda>_. ''none'') (placementMessage app),
                            placeAgainButton := map_option (\<lambda>_. ''block'') (placeAgainButton app),
                            rotateLeftBtn := map_option (\<lambda>_. ''block'') (rotateLeftBtn app),
                            rotateRightBtn := map_option (\<lambda>_. ''block'') (rotateRightBtn app),
                            selectListenerBound := False\<rparr>)))
         else (h, app)))"

text \<open>The click listener of the Place Again button (\<^verbatim>\<open>createPlacementUI\<close>).\<close>

definition placeAgain_onclick :: "app_state \<Rightarrow> app_state" where
  "placeAgain_onclick s =
     (case s of (h, app) \<Rightarrow>
        (let g = productGroup app
         in (h\<lparr>objects := (objects h)(g := (objects h g)\<lparr>visible := False\<rparr>)\<rparr>,
             app\<lparr>isPlacingProduct := True,
                 placementMessage := map_option (\<lambda>_. ''block'') (placementMessage app),
                 placeAgainButton := map_option (\<lambda>_. ''none'') (placeAgainButton app),
                 rotateLeftBtn := map_option (\<lambda>_. ''none'') (rotateLeftBtn app),
                 rotateRightBtn := map_option (\<lambda>_. ''none'') (rotateRightBtn app),
                 selectListenerBound := True\<rparr>)))"

subsection \<open>App: the render loop\<close>

text \<open>
  One call of the animation-loop callback of \<^verbatim>\<open>animate\<close>. \<open>frame\<close> is the
  \<^verbatim>\<open>XRFrame\<close>, given by its hit-test results, or \<open>None\<close> outside XR. The second
  component of the result lists, in order, the orbit controls whose \<^verbatim>\<open>update()\<close>
  the frame invoked. Rendering changes no state of the model.
\<close>

definition animate :: "Vector3 list option \<Rightarrow> bool \<Rightarrow> app_state \<Rightarrow> app_state \<times> orbit list" where
  "animate frame isMobile s =
     (case s of (h, app) \<Rightarrow>
        (let h1 = (if isARMode app \<and> isPlacingProduct app \<and> hitTestSource app \<noteq> None
                   then (case frame of
                           None \<Rightarrow> h
                         | Some hitTestResults \<Rightarrow>
                             (case placementReticle app of
                                None \<Rightarrow> h
                              | Some r \<Rightarrow>
                                  (case hitTestResults of
                                     [] \<Rightarrow>
                                       h\<lparr>objects := (objects h)
                                           (r := (objects h r)\<lparr>visible := False\<rparr>)\<rparr>
                                   | pose # _ \<Rightarrow>
                                       h\<lparr>objects := (objects h)
                                           (r := (objects h r)
                                              \<lparr>visible := True,
                                               position := Vector3_set (vx pose) (vy pose) (vz pose)\<rparr>)\<rparr>)))
                   else h);
             updated = (if \<not> app_isDragging app then [app_orbitControls app] else [])
         in (case interactionManager app of
               None \<Rightarrow> ((h1, app), updated)
             | Some im \<Rightarrow>
                 (case update isMobile (h1, im) of
                    ((h2, im2), updatedByManager) \<Rightarrow>
                      ((h2, app\<lparr>interactionManager := Some im2\<rparr>),
                       updated @ updatedByManager)))))"

subsection \<open>Placement: an AR session awaiting the commit tap\<close>

text \<open>
  The example scene in an AR session before the first tap, as
  \<^verbatim>\<open>onARSessionStart\<close> leaves it once the hit-test source has arrived: the
  product group \<open>1\<close> hidden, still at the origin where \<^verbatim>\<open>init\<close> created it, the
  floor \<open>7\<close> and the reticle \<open>8\<close> hidden, the prompt shown.
\<close>

definition arHeap :: Heap where
  "arHeap =
     exampleHeap\<lparr>objects := (objects exampleHeap)
        (0 := (objects exampleHeap 0)\<lparr>children := [1, 6, 7, 8]\<rparr>,
         1 := (objects exampleHeap 1)\<lparr>visible := False\<rparr>,
         7 := newGroup\<lparr>parent := Some 0, visible := False\<rparr>,
         8 := newGroup\<lparr>parent := Some 0, visible := False\<rparr>),
       nextObject := 9\<rparr>"

definition arApp :: App where
  "arApp =
     \<lparr>loadedModels = [(''blade'', 2), (''frame'', 3)],
      app_draggableObjects = [2, 3],
      isARMode = True, isPlacingProduct = True, app_isDragging = False,
      hitTestSource = Some 0, productGroup = 1,
      floorMesh = Some 7, placementReticle = Some 8,
      placementMessage = Some ''block'', placeAgainButton = Some ''none'',
      rotateLeftBtn = Some ''none'', rotateRightBtn = Some ''none'',
      selectListenerBound = True, app_orbitControls = 0,
      interactionManager = Some (exampleManager\<lparr>isXRSessionActive := True\<rparr>)\<rparr>"

text \<open>
  C7. A select event in the state awaiting placement (\<open>isPlacingProduct\<close> set,
  hit-test source present) whose frame has no hit-test result changes nothing:
  the heap (the group's visibility and position, floor, reticle) and every
  field of the app, the placement flag and the placement UI among them, are
  as before.
\<close>

theorem commit_without_hit_is_noop:
  assumes "isPlacingProduct app" and "hitTestSource app \<noteq> None"
  shows "onSelectEvent contentMinY [] (h, app) = (h, app)"
  using assms by (simp add: onSelectEvent_def)

theorem commit_without_hit_is_noop_witness:
  "isPlacingProduct arApp \<and> hitTestSource arApp \<noteq> None
   \<and> onSelectEvent (- 1) [] (arHeap, arApp) = (arHeap, arApp)"
proof -
  have placing: "isPlacingProduct arApp" and source: "hitTestSource arApp \<noteq> None"
    by (simp_all add: arApp_def)
  from commit_without_hit_is_noop [OF placing source] show ?thesis
    using placing source by simp
qed

subsection \<open>Placement: the height of the placed model\<close>

text \<open>
  What a commit tap does to the lowest point of the group. \<^verbatim>\<open>offsetY\<close> is the
  world-space minimum of the bounding box, which holds the group's old
  position as well as the extent of its content; the lowest point ends at the
  height of the hit, minus that minimum, plus the extent of the content: short
  of the hit by the \<open>y\<close> that the group's position had before the tap.
\<close>

lemma placement_lowest_point:
  assumes "isPlacingProduct app" and "hitTestSource app \<noteq> None"
    and "floorMesh app \<noteq> Some (productGroup app)"
    and "placementReticle app \<noteq> Some (productGroup app)"
  shows "setFromObject_min_y contentMinY
           (fst (onSelectEvent contentMinY (pose # more_hits) (h, app))) (productGroup app)
         = jsAdd (jsSub (vy pose)
                    (jsAdd (vy (position (objects h (productGroup app)))) contentMinY))
             contentMinY"
  using assms
  by (auto simp add: onSelectEvent_def setFromObject_min_y_def Let_def Vector3_set_def
        split: option.split)

lemma ar_group_position: "position (objects arHeap 1) = Vector3_set 0 0 0"
  by (simp add: arHeap_def exampleHeap_def newGroup_def)

text \<open>
  C2 at a second placement. The content of the group reaches \<open>1\<close> below the
  group's origin. The first tap hits a surface at height \<open>2\<close> and the lowest
  point of the group lands at \<open>2\<close>. After Place Again, a tap on the same
  surface leaves the lowest point at \<open>-1\<close>, three below the surface.
\<close>

theorem place_again_misses_surface:
  "setFromObject_min_y (- 1)
     (fst (onSelectEvent (- 1) [Vector3_set 0 2 0] (arHeap, arApp))) 1 = 2
   \<and> setFromObject_min_y (- 1)
       (fst (onSelectEvent (- 1) [Vector3_set 0 2 0]
              (placeAgain_onclick (onSelectEvent (- 1) [Vector3_set 0 2 0] (arHeap, arApp))))) 1
       = - 1"
  using ar_group_position
  by (simp add: onSelectEvent_def placeAgain_onclick_def setFromObject_min_y_def Let_def
        arApp_def Vector3_set_def jsAdd_def jsSub_def fl_ints)

subsection \<open>The render loop and the orbit controls\<close>

text \<open>
  C5, for the manager's orbit controls. On every render frame the orbit
  controls of the interaction manager have \<^verbatim>\<open>update()\<close> invoked once when no XR
  session is active and not at all when one is. The test does not read the
  manager's drag session: on a frame inside an XR session, so during any XR
  manipulation, the manager's instance is not updated, and on a frame with a
  pointer drag in progress it is.
\<close>

theorem frame_orbit_updates:
  assumes "interactionManager app = Some im"
    and "orbitControls im = Some c"
    and "c \<noteq> app_orbitControls app"
  shows "count_list (snd (animate frame isMobile (h, app))) c
           = (if isXRSessionActive im then 0 else 1)"
  using assms
  by (simp add: animate_def update_def Let_def split: option.split prod.split)

text \<open>
  A frame during a pointer drag of part \<open>2\<close> invokes \<^verbatim>\<open>update()\<close> of both orbit
  controls; a frame in an XR session, with part \<open>2\<close> held by controller \<open>6\<close>,
  invokes that of the app's.
\<close>

definition dragApp :: App where
  "dragApp = arApp\<lparr>isARMode := False, isPlacingProduct := False, hitTestSource := None,
                   interactionManager := Some draggingManager\<rparr>"

theorem orbit_updated_during_drag_counterexample:
  "map_option isDragging (interactionManager dragApp) = Some True
   \<and> map_option selectedObject (interactionManager dragApp) = Some (Some 2)
   \<and> snd (animate None False (exampleHeap, dragApp)) = [0, 1]
   \<and> snd (animate (Some []) False (arHeap, arApp\<lparr>interactionManager := Some xrManager\<rparr>)) = [0]"
  by (simp add: animate_def update_def Let_def dragApp_def arApp_def draggingManager_def
        xrManager_def exampleManager_def)

theorem frame_orbit_updates_witness:
  "interactionManager dragApp = Some draggingManager
   \<and> orbitControls draggingManager = Some 1
   \<and> app_orbitControls dragApp = 0
   \<and> \<not> isXRSessionActive draggingManager
   \<and> count_list (snd (animate None False (exampleHeap, dragApp))) 1 = 1
   \<and> interactionManager (arApp\<lparr>interactionManager := Some xrManager\<rparr>) = Some xrManager
   \<and> orbitControls xrManager = Some 1
   \<and> isXRSessionActive xrManager
   \<and> count_list (snd (animate (Some []) False
                        (arHeap, arApp\<lparr>interactionManager := Some xrManager\<rparr>))) 1 = 0"
proof -
  have im: "interactionManager dragApp = Some draggingManager"
    by (simp add: dragApp_def)
  have oc: "orbitControls draggingManager = Some 1" and nonxr: "\<not> isXRSessionActive draggingManager"
    by (simp_all add: draggingManager_def exampleManager_def)
  have ao: "app_orbitControls dragApp = 0"
    by (simp add: dragApp_def arApp_def)
  have im2: "interactionManager (arApp\<lparr>interactionManager := Some xrManager\<rparr>) = Some xrManager"
    by simp
  have oc2: "orbitControls xrManager = Some 1" and xr: "isXRSessionActive xrManager"
    by (simp_all add: xrManager_def exampleManager_def)
  have ao2: "app_orbitControls (arApp\<lparr>interactionManager := Some xrManager\<rparr>) = 0"
    by (simp add: arApp_def)
  have d1: "(1::nat) \<noteq> app_orbitControls dragApp"
    using ao by simp
  have d2: "(1::nat) \<noteq> app_orbitControls (arApp\<lparr>interactionManager := Some xrManager\<rparr>)"
    using ao2 by simp
  from frame_orbit_updates [OF im oc d1, of None False exampleHeap]
  have drag: "count_list (snd (animate None False (exampleHeap, dragApp))) 1 = 1"
    using nonxr by simp
  from frame_orbit_updates [OF im2 oc2 d2, where frame = "Some []" and isMobile = False
      and h = arHeap]
  have inxr: "count_list (snd (animate (Some []) False
                        (arHeap, arApp\<lparr>interactionManager := Some xrManager\<rparr>))) 1 = 0"
    using xr by simp
  show ?thesis
    using im oc ao nonxr drag im2 oc2 xr inxr by blast
qed

subsection \<open>Registry consistency\<close>

text \<open>
  The invariant of the registry: the manager's array holds the values of
  \<open>loadedModels\<close>, names and containers are each distinct, every container is a
  child of the product group, and the group and its children are allocated
  objects (so the next new object is none of them).
\<close>

definition registryInv :: "app_state \<Rightarrow> bool" where
  "registryInv s =
     ((case interactionManager (snd s) of
         None \<Rightarrow> False
       | Some im \<Rightarrow> arrays (fst s) (draggableObjects im) = map snd (loadedModels (snd s)))
      \<and> distinct (map fst (loadedModels (snd s)))
      \<and> distinct (map snd (loadedModels (snd s)))
      \<and> set (map snd (loadedModels (snd s)))
          \<subseteq> set (children (objects (fst s) (productGroup (snd s))))
      \<and> (\<forall>c \<in> set (children (objects (fst s) (productGroup (snd s)))). c < nextObject (fst s))
      \<and> productGroup (snd s) < nextObject (fst s))"

lemma updateDragControls_effect:
  assumes "interactionManager app = Some im"
  shows "updateDragControls (h, app)
           = (h\<lparr>arrays := (arrays h)(nextArray h := map snd (loadedModels app)),
                nextArray := Suc (nextArray h)\<rparr>,
              app\<lparr>interactionManager := Some (im\<lparr>draggableObjects := nextArray h\<rparr>)\<rparr>)"
  using assms
  by (simp add: updateDragControls_def newArray_def setDraggableObjects_def)

lemma map_snd_update_subset:
  "set (map snd (AList.update k v al)) \<subseteq> insert v (set (map snd al))"
  by (induction al) auto

lemma distinct_map_snd_update:
  "distinct (map snd al) \<Longrightarrow> v \<notin> set (map snd al) \<Longrightarrow>
     distinct (map snd (AList.update k v al))"
proof (induction al)
  case Nil
  then show ?case by simp
next
  case (Cons p al)
  show ?case
  proof (cases "fst p = k")
    case True
    with Cons.prems show ?thesis by auto
  next
    case False
    have "snd p \<notin> set (map snd (AList.update k v al))"
      using map_snd_update_subset [of k v al] Cons.prems by auto
    with False Cons show ?thesis by auto
  qed
qed

lemma Object3D_add_fresh:
  assumes "c \<noteq> p" and "parent (objs c) = None"
  shows "Object3D_add p c objs
           = objs(c := (objs c)\<lparr>parent := Some p\<rparr>,
                  p := (objs p)\<lparr>children := children (objs p) @ [c]\<rparr>)"
  using assms by (simp add: Object3D_add_def Let_def)

lemma loadModel_children:
  assumes "productGroup app < nextObject h"
  shows "children (objects (fst (loadModel_onLoad name gltfScene (h, app))) (productGroup app))
           = children (objects h (productGroup app)) @ [Suc (nextObject h)]"
    and "nextObject (fst (loadModel_onLoad name gltfScene (h, app))) = Suc (Suc (nextObject h))"
    and "productGroup (snd (loadModel_onLoad name gltfScene (h, app))) = productGroup app"
    and "loadedModels (snd (loadModel_onLoad name gltfScene (h, app)))
           = AList.update name (Suc (nextObject h)) (loadedModels app)"
    and "interactionManager app = Some im \<Longrightarrow>
           interactionManager (snd (loadModel_onLoad name gltfScene (h, app)))
             = Some (im\<lparr>draggableObjects := nextArray h\<rparr>)
           \<and> arrays (fst (loadModel_onLoad name gltfScene (h, app))) (nextArray h)
                 = map snd (AList.update name (Suc (nextObject h)) (loadedModels app))"
  using assms
  by (simp_all add: loadModel_onLoad_def Let_def updateDragControls_def newArray_def
        setDraggableObjects_def Object3D_add_fresh newGroup_def split: option.split)

lemma loadModel_inv:
  assumes "registryInv (h, app)"
  shows "registryInv (loadModel_onLoad name gltfScene (h, app))"
    and "set (map fst (loadedModels (snd (loadModel_onLoad name gltfScene (h, app)))))
           = insert name (set (map fst (loadedModels app)))"
proof -
  let ?s = "loadModel_onLoad name gltfScene (h, app)"
  let ?n = "nextObject h"
  from assms obtain im where im: "interactionManager app = Some im"
    by (auto simp add: registryInv_def split: option.splits)
  from assms have keys: "distinct (map fst (loadedModels app))"
    and vals: "distinct (map snd (loadedModels app))"
    and inside: "set (map snd (loadedModels app)) \<subseteq> set (children (objects h (productGroup app)))"
    and old: "\<forall>c \<in> set (children (objects h (productGroup app))). c < ?n"
    and grp: "productGroup app < ?n"
    by (simp_all add: registryInv_def)
  note eff = loadModel_children [OF grp, where name = name and gltfScene = gltfScene]
  have fresh: "Suc ?n \<notin> set (map snd (loadedModels app))"
  proof
    assume "Suc ?n \<in> set (map snd (loadedModels app))"
    with inside have "Suc ?n \<in> set (children (objects h (productGroup app)))"
      by blast
    with old have "Suc ?n < ?n"
      by blast
    then show False
      by simp
  qed
  have lm: "loadedModels (snd ?s) = AList.update name (Suc ?n) (loadedModels app)"
    by (rule eff(4))
  have "distinct (map fst (loadedModels (snd ?s)))"
    unfolding lm using keys by (rule distinct_update)
  moreover have "distinct (map snd (loadedModels (snd ?s)))"
    unfolding lm using vals fresh by (rule distinct_map_snd_update)
  moreover have "set (map snd (loadedModels (snd ?s)))
                   \<subseteq> set (children (objects (fst ?s) (productGroup (snd ?s))))"
    unfolding lm eff(3) eff(1)
    using map_snd_update_subset [of name "Suc ?n" "loadedModels app"] inside by auto
  moreover have "\<forall>c \<in> set (children (objects (fst ?s) (productGroup (snd ?s)))).
                   c < nextObject (fst ?s)"
    unfolding eff(3) eff(1) eff(2) using old by auto
  moreover have "productGroup (snd ?s) < nextObject (fst ?s)"
    unfolding eff(3) eff(2) using grp by simp
  moreover have "interactionManager (snd ?s) = Some (im\<lparr>draggableObjects := nextArray h\<rparr>)"
    and "arrays (fst ?s) (nextArray h) = map snd (loadedModels (snd ?s))"
    unfolding lm using eff(5) [OF im] by simp_all
  ultimately show "registryInv ?s"
    by (simp add: registryInv_def)
  show "set (map fst (loadedModels (snd ?s))) = insert name (set (map fst (loadedModels app)))"
    unfolding lm using dom_update [of name "Suc ?n" "loadedModels app"] by auto
qed

lemma Object3D_remove_children:
  "set (children (Object3D_remove p c objs x)) \<subseteq> set (children (objs x))"
  by (auto simp add: Object3D_remove_def Let_def dest: set_remove1_subset [THEN subsetD])

lemma fold_remove_children:
  "set (children (fold (\<lambda>model objs.
                          if parent (objs model) \<noteq> None
                          then Object3D_remove g model objs
                          else objs) ms objs x))
     \<subseteq> set (children (objs x))"
proof (induction ms arbitrary: objs)
  case Nil
  then show ?case by simp
next
  case (Cons m ms)
  let ?o = "if parent (objs m) \<noteq> None then Object3D_remove g m objs else objs"
  have "set (children (?o x)) \<subseteq> set (children (objs x))"
    using Object3D_remove_children [of g m objs x] by simp
  with Cons.IH [of ?o] show ?case
    by auto
qed

lemma clear_inv:
  assumes "registryInv (h, app)"
  shows "registryInv (clearExistingModels (h, app))"
    and "loadedModels (snd (clearExistingModels (h, app))) = []"
proof -
  let ?objs = "fold (\<lambda>model objs.
                       if parent (objs model) \<noteq> None
                       then Object3D_remove (productGroup app) model objs
                       else objs)
                 (map snd (loadedModels app)) (objects h)"
  from assms obtain im where im: "interactionManager app = Some im"
    by (auto simp add: registryInv_def split: option.splits)
  from assms have old: "\<forall>c \<in> set (children (objects h (productGroup app))). c < nextObject h"
    and grp: "productGroup app < nextObject h"
    by (simp_all add: registryInv_def)
  have eq: "clearExistingModels (h, app)
          = (h\<lparr>objects := ?objs, arrays := (arrays h)(nextArray h := []),
               nextArray := Suc (nextArray h)\<rparr>,
             app\<lparr>loadedModels := [], app_draggableObjects := [],
                 interactionManager := Some (im\<lparr>draggableObjects := nextArray h\<rparr>)\<rparr>)"
    using im by (simp add: clearExistingModels_def Let_def updateDragControls_effect)
  have kept: "set (children (?objs (productGroup app)))
               \<subseteq> set (children (objects h (productGroup app)))"
    by (rule fold_remove_children)
  show "registryInv (clearExistingModels (h, app))"
    unfolding eq using kept old grp by (auto simp add: registryInv_def)
  show "loadedModels (snd (clearExistingModels (h, app))) = []"
    unfolding eq by simp
qed

lemma applyOps_inv:
  assumes "registryInv s"
  shows "registryInv (applyOps ops s)
       \<and> set (map fst (loadedModels (snd (applyOps ops s))))
           = registeredNames (set (map fst (loadedModels (snd s)))) ops"
  using assms
proof (induction ops arbitrary: s)
  case Nil
  then show ?case by simp
next
  case (Cons op ops)
  obtain h app where s: "s = (h, app)" by (cases s)
  show ?case
  proof (cases op)
    case (Register name gltfScene)
    from Cons.prems have "registryInv (loadModel_onLoad name gltfScene (h, app))"
      unfolding s by (rule loadModel_inv(1))
    from Cons.IH [OF this] show ?thesis
      using Register s loadModel_inv(2) [OF Cons.prems [unfolded s], of name gltfScene]
      by simp
  next
    case Clear
    from Cons.prems have "registryInv (clearExistingModels (h, app))"
      unfolding s by (rule clear_inv(1))
    from Cons.IH [OF this] show ?thesis
      using Clear s clear_inv(2) [OF Cons.prems [unfolded s]]
      by simp
  qed
qed

text \<open>
  C6. The app starts with an empty registry, the manager's list empty. After
  any sequence of successful loads and clears, the array handed to the
  manager has as many elements as there are distinct names registered since
  the last clear, holds no object twice, and holds children of the product
  group only.
\<close>

theorem registry_consistency:
  assumes "interactionManager app = Some im0"
    and "arrays h (draggableObjects im0) = []"
    and "loadedModels app = []"
    and "\<forall>c \<in> set (children (objects h (productGroup app))). c < nextObject h"
    and "productGroup app < nextObject h"
  shows "\<exists>im. interactionManager (snd (applyOps ops (h, app))) = Some im
       \<and> length (arrays (fst (applyOps ops (h, app))) (draggableObjects im))
           = card (registeredNames {} ops)
       \<and> distinct (arrays (fst (applyOps ops (h, app))) (draggableObjects im))
       \<and> set (arrays (fst (applyOps ops (h, app))) (draggableObjects im))
           \<subseteq> set (children (objects (fst (applyOps ops (h, app)))
                               (productGroup (snd (applyOps ops (h, app))))))"
proof -
  let ?s = "applyOps ops (h, app)"
  have start: "registryInv (h, app)"
    using assms by (simp add: registryInv_def)
  from applyOps_inv [OF start, of ops]
  have inv: "registryInv ?s"
    and names: "set (map fst (loadedModels (snd ?s))) = registeredNames {} ops"
    using assms(3) by simp_all
  from inv obtain im where im: "interactionManager (snd ?s) = Some im"
    and list: "arrays (fst ?s) (draggableObjects im) = map snd (loadedModels (snd ?s))"
    by (auto simp add: registryInv_def split: option.splits)
  from inv have keys: "distinct (map fst (loadedModels (snd ?s)))"
    and vals: "distinct (map snd (loadedModels (snd ?s)))"
    and inside: "set (map snd (loadedModels (snd ?s)))
                   \<subseteq> set (children (objects (fst ?s) (productGroup (snd ?s))))"
    by (simp_all add: registryInv_def)
  have "length (arrays (fst ?s) (draggableObjects im)) = length (map fst (loadedModels (snd ?s)))"
    unfolding list by simp
  also have "\<dots> = card (set (map fst (loadedModels (snd ?s))))"
    using keys by (rule distinct_card [symmetric])
  finally have len: "length (arrays (fst ?s) (draggableObjects im)) = card (registeredNames {} ops)"
    unfolding names .
  show ?thesis
    using im len vals inside list by (intro exI [of _ im]) simp
qed

text \<open>
  The app before any load, and five operations on it: two names are
  registered after the clear, one of them twice.
\<close>

definition freshHeap :: Heap where
  "freshHeap =
     \<lparr>objects = (\<lambda>_. newGroup)
        (0 := newGroup\<lparr>children := [1]\<rparr>,
         1 := newGroup\<lparr>parent := Some 0\<rparr>),
      nextObject = 2,
      arrays = (\<lambda>_. []),
      nextArray = 1,
      orbits = (\<lambda>_. exampleOrbit)\<rparr>"

definition freshApp :: App where
  "freshApp =
     \<lparr>loadedModels = [], app_draggableObjects = [],
      isARMode = False, isPlacingProduct = False, app_isDragging = False,
      hitTestSource = None, productGroup = 1,
      floorMesh = None, placementReticle = None,
      placementMessage = None, placeAgainButton = None,
      rotateLeftBtn = None, rotateRightBtn = None,
      selectListenerBound = False, app_orbitControls = 0,
      interactionManager = Some exampleManager\<rparr>"

theorem registry_consistency_witness:
  "interactionManager freshApp = Some exampleManager
   \<and> arrays freshHeap (draggableObjects exampleManager) = []
   \<and> loadedModels freshApp = []
   \<and> children (objects freshHeap (productGroup freshApp)) = []
   \<and> productGroup freshApp < nextObject freshHeap
   \<and> card (registeredNames {}
        [Register ''handle'' newGroup, Clear, Register ''blade'' newGroup,
         Register ''frame'' newGroup, Register ''blade'' newGroup]) = 2
   \<and> (\<exists>im. interactionManager (snd (applyOps
              [Register ''handle'' newGroup, Clear, Register ''blade'' newGroup,
               Register ''frame'' newGroup, Register ''blade'' newGroup] (freshHeap, freshApp)))
            = Some im
        \<and> length (arrays (fst (applyOps
              [Register ''handle'' newGroup, Clear, Register ''blade'' newGroup,
               Register ''frame'' newGroup, Register ''blade'' newGroup] (freshHeap, freshApp)))
             (draggableObjects im)) = 2)"
proof -
  have im0: "interactionManager freshApp = Some exampleManager"
    and empty: "loadedModels freshApp = []"
    by (simp_all add: freshApp_def)
  have list0: "arrays freshHeap (draggableObjects exampleManager) = []"
    by (simp add: freshHeap_def)
  have kids: "children (objects freshHeap (productGroup freshApp)) = []"
    by (simp add: freshHeap_def freshApp_def newGroup_def)
  then have allocated: "\<forall>c \<in> set (children (objects freshHeap (productGroup freshApp))).
                          c < nextObject freshHeap"
    by simp
  have grp: "productGroup freshApp < nextObject freshHeap"
    by (simp add: freshHeap_def freshApp_def)
  have names: "card (registeredNames {}
        [Register ''handle'' newGroup, Clear, Register ''blade'' newGroup,
         Register ''frame'' newGroup, Register ''blade'' newGroup]) = 2"
    by (simp add: card_insert_if)
  from registry_consistency [OF im0 list0 empty allocated grp,
      of "[Register ''handle'' newGroup, Clear, Register ''blade'' newGroup,
         Register ''frame'' newGroup, Register ''blade'' newGroup]"]
  show ?thesis
    unfolding names using im0 list0 empty kids grp names by blast
qed

end
